theory Spec2Isabelle
  imports Main "HOL-Library.Extended_Nat"
begin

section \<open>Errors\<close>

text \<open>
  Every \<^verbatim>\<open>raise\<close> and every failed \<^verbatim>\<open>assert\<close> of the Python source is a value of
  \<open>error\<close>. The constructors carry the names of the error kinds of the specification;
  the exception the source raises is given beside each.
\<close>

datatype tiling_param = CacheTiles | ComputationTiles

datatype error =
    BadSrMode                 \<comment> \<open>\<^verbatim>\<open>ValueError('Bad combination of `sr_*` parameters')\<close>\<close>
  | BadArgument               \<comment> \<open>any other \<^verbatim>\<open>ValueError\<close> raised at the API boundary\<close>
  | TypeError                 \<comment> \<open>\<^verbatim>\<open>TypeError\<close>\<close>
  | Closed                    \<comment> \<open>\<^verbatim>\<open>RuntimeError("DataSource already closed")\<close>\<close>
  | TooMany                   \<comment> \<open>\<^verbatim>\<open>RuntimeError("Can't activate all pooled sources ...")\<close>\<close>
  | BadTiling tiling_param    \<comment> \<open>\<^verbatim>\<open>ValueError("`cache_tiles` should be a tiling ...")\<close> and its sibling\<close>
  | DuplicateKey              \<comment> \<open>key validation of the registry\<close>
  | UnknownKey                \<comment> \<open>\<^verbatim>\<open>KeyError\<close> of a registry lookup\<close>
  | NoOverlap                 \<comment> \<open>intersection of disjoint footprints\<close>
  | AssertionError            \<comment> \<open>a failed \<^verbatim>\<open>assert\<close>\<close>
  | IndexError                \<comment> \<open>numpy index out of bounds\<close>
  | DriverError               \<comment> \<open>the native driver reported a failure\<close>
  | ExternalError             \<comment> \<open>raised inside a collaborator that is passed as a parameter\<close>

definition bind :: "error + 'a \<Rightarrow> ('a \<Rightarrow> error + 'b) \<Rightarrow> error + 'b" where
  "bind m f = (case m of Inl e \<Rightarrow> Inl e | Inr x \<Rightarrow> f x)"

section \<open>The activation pool and the back data source\<close>

text \<open>
  Modelled from the spec: \<^verbatim>\<open>BackDataSource\<close>, which is not among the source files. It
  owns the working, fallback and forced spatial references, the three flags, \<open>max_active\<close>
  and the driver activation pool, a bounded LRU of activatable sources keyed by the
  source's uid. The list \<open>ap_active\<close> holds the uids that have a live driver object,
  least recently used first. \<open>ap_leases\<close> counts the leases handed out so far and
  \<open>events\<close> records the shutdown steps in the order they happen.
\<close>

datatype event = SchedulerStopped | PoolsJoined | SourceClosed nat

record back_ds =
  wkt_work :: "string option"
  wkt_fallback :: "string option"
  wkt_forced :: "string option"
  analyse_transformation :: bool
  allow_none_geometry :: bool
  allow_interpolation :: bool
  max_active :: enat
  ds_id :: nat
  ap_active :: "nat list"
  ap_leases :: nat
  events :: "event list"

text \<open>
  Modelled from the spec: \<open>ensure_one_slot\<close> is the eviction step of the pool.
  "If absent and total active < max_active, allocate and insert. If absent and total
  active == max_active, deactivate LRU first."
\<close>

definition ensure_one_slot :: "back_ds \<Rightarrow> back_ds" where
  "ensure_one_slot b =
     (if enat (length (ap_active b)) = max_active b
      then b\<lparr>ap_active := tl (ap_active b)\<rparr>
      else b)"

text \<open>Modelled from the spec: \<^verbatim>\<open>prox.active\<close>, the source has a live driver object.\<close>

definition is_active :: "back_ds \<Rightarrow> nat \<Rightarrow> bool" where
  "is_active b u = (u \<in> set (ap_active b))"

text \<open>
  Modelled from the spec: \<^verbatim>\<open>prox.activate()\<close>. A source that is already active stays as
  it is; otherwise a slot is made free and the new driver object becomes the most
  recently used one.
\<close>

definition activate :: "nat \<Rightarrow> back_ds \<Rightarrow> back_ds" where
  "activate u b =
     (if is_active b u then b
      else (let b' = ensure_one_slot b in b'\<lparr>ap_active := ap_active b' @ [u]\<rparr>))"


text \<open>
  Modelled from the spec: \<^verbatim>\<open>acquire_driver_object(uid, allocator)\<close> used as a context
  manager. "If present, move to MRU"; otherwise as \<open>activate\<close>. The lease is released at the
  end of the \<^verbatim>\<open>with\<close> block, which leaves the driver object in the pool as the most
  recently used one.
\<close>

definition acquire_driver_object :: "nat \<Rightarrow> back_ds \<Rightarrow> back_ds" where
  "acquire_driver_object u b =
     (let b' = (if is_active b u then b\<lparr>ap_active := removeAll u (ap_active b) @ [u]\<rparr>
                else activate u b)
      in b'\<lparr>ap_leases := Suc (ap_leases b')\<rparr>)"



section \<open>The DataSource\<close>

text \<open>
  A registered source as the registry sees it: its uid and whether it is an instance of
  \<^verbatim>\<open>APooledEmissary\<close>. \<^verbatim>\<open>_keys_of_proxy\<close> is a Python dict from source to the
  list of its keys; its insertion order is the order of the association list.
\<close>

record proxy =
  uid :: nat
  pooled :: bool

record datasource =
  ds_closed :: bool
  ds_back :: back_ds
  keys_of_proxy :: "(proxy \<times> string list) list"

subsection \<open>Construction\<close>

text \<open>
  \<^verbatim>\<open>osr.GetUserInputAsWKT\<close> belongs to the spatial reference library; it is a parameter
  of the constructor's model, \<open>None\<close> standing for the exception it raises on a string
  it does not understand. The deprecated keyword arguments are not modelled: \<^verbatim>\<open>kwargs\<close>
  is empty.
\<close>

definition to_wkt :: "(string \<Rightarrow> string option) \<Rightarrow> string option \<Rightarrow> error + string option" where
  "to_wkt GetUserInputAsWKT sr =
     (case sr of
        None \<Rightarrow> Inr None
      | Some s \<Rightarrow> (case GetUserInputAsWKT s of None \<Rightarrow> Inl ExternalError | Some w \<Rightarrow> Inr (Some w)))"

definition sr_mode ::
  "(string \<Rightarrow> string option) \<Rightarrow> string option \<Rightarrow> string option \<Rightarrow> string option
    \<Rightarrow> error + (string option \<times> string option \<times> string option)" where
  "sr_mode GetUserInputAsWKT sr_work sr_fallback sr_forced =
     (let mode = (sr_work \<noteq> None, sr_fallback \<noteq> None, sr_forced \<noteq> None) in
      if mode = (False, False, False) then
        Inr (sr_work, sr_fallback, sr_forced)
      else if mode = (True, False, False) then
        bind (to_wkt GetUserInputAsWKT sr_work) (\<lambda>w. Inr (w, sr_fallback, sr_forced))
      else if mode = (True, True, False) then
        bind (to_wkt GetUserInputAsWKT sr_work) (\<lambda>w.
        bind (to_wkt GetUserInputAsWKT sr_fallback) (\<lambda>f. Inr (w, f, sr_forced)))
      else if mode = (True, False, True) then
        bind (to_wkt GetUserInputAsWKT sr_work) (\<lambda>w.
        bind (to_wkt GetUserInputAsWKT sr_forced) (\<lambda>f. Inr (w, sr_fallback, f)))
      else Inl BadSrMode)"

definition DataSource_init ::
  "(string \<Rightarrow> string option) \<Rightarrow> nat \<Rightarrow> string option \<Rightarrow> string option \<Rightarrow> string option
    \<Rightarrow> bool \<Rightarrow> bool \<Rightarrow> bool \<Rightarrow> enat \<Rightarrow> error + datasource" where
  "DataSource_init GetUserInputAsWKT self_id sr_work sr_fallback sr_forced
       analyse_transformation' allow_none_geometry' allow_interpolation' max_active' =
     bind (sr_mode GetUserInputAsWKT sr_work sr_fallback sr_forced) (\<lambda>(w, f, c).
       if max_active' < 1 then Inl BadArgument
       else Inr \<lparr>ds_closed = False,
                 ds_back = \<lparr>wkt_work = w, wkt_fallback = f, wkt_forced = c,
                         analyse_transformation = analyse_transformation',
                         allow_none_geometry = allow_none_geometry',
                         allow_interpolation = allow_interpolation',
                         max_active = max_active',
                         ds_id = self_id,
                         ap_active = [], ap_leases = 0, events = []\<rparr>,
                 keys_of_proxy = []\<rparr>)"

text \<open>
  The four rows of the table of legal combinations, over the presence of
  \<open>sr_work\<close>, \<open>sr_fallback\<close> and \<open>sr_forced\<close>, as the specification lists them.
\<close>

definition legal_sr_combination :: "bool \<Rightarrow> bool \<Rightarrow> bool \<Rightarrow> bool" where
  "legal_sr_combination work fallback forced =
     ((work, fallback, forced) = (False, False, False)
      \<or> (work, fallback, forced) = (True, False, False)
      \<or> (work, fallback, forced) = (True, True, False)
      \<or> (work, fallback, forced) = (True, False, True))"

definition understood :: "(string \<Rightarrow> string option) \<Rightarrow> string option \<Rightarrow> bool" where
  "understood GetUserInputAsWKT sr =
     (case sr of None \<Rightarrow> True | Some s \<Rightarrow> GetUserInputAsWKT s \<noteq> None)"

subsection \<open>Registry\<close>

text \<open>
  Modelled from the spec: \<^verbatim>\<open>DataSourceRegisterMixin\<close>, which is not among the source
  files. "Each key must be non-empty and not already registered; zero keys is permitted
  (anonymous). Fails with DuplicateKey." \<open>register\<close> adds a source under its keys,
  \<open>unregister\<close> removes it. The lookups of \<open>DataSource\<close> that follow read the registry:
  \<^verbatim>\<open>__getitem__\<close>, \<^verbatim>\<open>__contains__\<close> for a key, \<^verbatim>\<open>__len__\<close> and the property \<^verbatim>\<open>wkt\<close>.
\<close>

definition registered_keys :: "datasource \<Rightarrow> string list" where
  "registered_keys ds = concat (map snd (keys_of_proxy ds))"

definition validate_key :: "datasource \<Rightarrow> string \<Rightarrow> error + unit" where
  "validate_key ds key =
     (if key = [] \<or> key \<in> set (registered_keys ds) then Inl DuplicateKey else Inr ())"

definition register :: "string list \<Rightarrow> proxy \<Rightarrow> datasource \<Rightarrow> datasource" where
  "register keys prox ds = ds\<lparr>keys_of_proxy := keys_of_proxy ds @ [(prox, keys)]\<rparr>"


definition getitem :: "datasource \<Rightarrow> string \<Rightarrow> error + proxy" where
  "getitem ds key =
     (case filter (\<lambda>(p, ks). key \<in> set ks) (keys_of_proxy ds) of
        [] \<Rightarrow> Inl UnknownKey
      | (p, ks) # rest \<Rightarrow> Inr p)"

definition contains_key :: "datasource \<Rightarrow> string \<Rightarrow> bool" where
  "contains_key ds key = (key \<in> set (registered_keys ds))"

definition len :: "datasource \<Rightarrow> nat" where
  "len ds = length (keys_of_proxy ds)"

definition wkt :: "datasource \<Rightarrow> string option" where
  "wkt ds = wkt_work (ds_back ds)"

subsection \<open>Closing\<close>




section \<open>Footprints\<close>

text \<open>
  Modelled from the spec: \<^verbatim>\<open>Footprint\<close>, which is not among the source files. A
  footprint is an affine raster geometry, and "two footprints share a grid iff their pixel vectors are
  equal and their origin offsets are an integer linear combination" of the pixel vectors.
  A footprint is therefore given by the grid it lies on and by integers: the column
  \<open>tlx\<close> and the row \<open>tly\<close> of its top left pixel on that grid (rows grow downwards) and
  its size in pixels. Grids are told apart by a number. Geometry between footprints of
  different grids (polygon overlap, windows of resampling, interpolation) is not
  computed here: it is taken from the record \<open>externals\<close> of collaborators.
\<close>

record footprint =
  grid :: nat
  tlx :: int
  tly :: int
  rsizex :: nat
  rsizey :: nat

datatype interpolation = Nearest | Bilinear | Cubic

datatype mask_mode = Erode | Dilate

datatype dtype = UInt8 | UInt16 | Int16 | UInt32 | Int32

text \<open>
  A numpy array of three axes \<open>(y, x, band)\<close>: its dtype, its shape and its elements.
  Pixel values are integers; the floating point dtypes are outside the model.
\<close>

record ndarray =
  adtype :: dtype
  ashape :: "nat \<times> nat \<times> nat"
  adata :: "int list list list"

type_synonym mask = "bool list list"

text \<open>A Python slice \<^verbatim>\<open>slice(start, stop)\<close>; \<open>None\<close> as stop is the end of the axis.\<close>

type_synonym pyslice = "nat \<times> nat option"

record externals =
  x_share_area :: "footprint \<Rightarrow> footprint \<Rightarrow> bool"
  x_intersection :: "footprint \<Rightarrow> footprint \<Rightarrow> int \<times> int \<times> nat \<times> nat"
  x_sampling_footprint :: "footprint \<Rightarrow> footprint \<Rightarrow> interpolation \<Rightarrow> footprint"
  x_resample ::
    "interpolation \<Rightarrow> mask_mode \<Rightarrow> footprint \<Rightarrow> footprint \<Rightarrow> ndarray \<Rightarrow> mask option
      \<Rightarrow> int option \<Rightarrow> int \<Rightarrow> dtype \<times> (nat \<Rightarrow> nat \<Rightarrow> nat \<Rightarrow> int) \<times> (nat \<Rightarrow> nat \<Rightarrow> bool)"
  x_slices_of_matrix :: "mask \<Rightarrow> (pyslice \<times> pyslice) list"

definition shape :: "footprint \<Rightarrow> nat \<times> nat" where
  "shape f = (rsizey f, rsizex f)"

definition tl_point :: "footprint \<Rightarrow> int \<times> int" where
  "tl_point f = (tlx f, tly f)"

definition same_grid :: "footprint \<Rightarrow> footprint \<Rightarrow> bool" where
  "same_grid a b = (grid a = grid b)"

text \<open>
  Modelled from the spec: \<open>spatial_to_raster\<close> is the inverse affine map; "callers must
  pass grid-aligned points", and for a node of the grid it is the difference of the
  grid coordinates.
\<close>

definition spatial_to_raster :: "footprint \<Rightarrow> int \<times> int \<Rightarrow> int \<times> int" where
  "spatial_to_raster f pt = (fst pt - tlx f, snd pt - tly f)"

text \<open>The pixel \<open>(x, y)\<close> of the grid lies in the footprint.\<close>

definition covers :: "footprint \<Rightarrow> int \<times> int \<Rightarrow> bool" where
  "covers f p =
     (tlx f \<le> fst p \<and> fst p < tlx f + int (rsizex f)
      \<and> tly f \<le> snd p \<and> snd p < tly f + int (rsizey f))"

definition overlap_x :: "footprint \<Rightarrow> footprint \<Rightarrow> int" where
  "overlap_x a b = min (tlx a + int (rsizex a)) (tlx b + int (rsizex b)) - max (tlx a) (tlx b)"

definition overlap_y :: "footprint \<Rightarrow> footprint \<Rightarrow> int" where
  "overlap_y a b = min (tly a + int (rsizey a)) (tly b + int (rsizey b)) - max (tly a) (tly b)"

text \<open>Modelled from the spec: \<open>share_area\<close> is "polygon overlap > 0".\<close>

definition share_area :: "externals \<Rightarrow> footprint \<Rightarrow> footprint \<Rightarrow> bool" where
  "share_area ext a b =
     (if same_grid a b then 0 < overlap_x a b \<and> 0 < overlap_y a b
      else x_share_area ext a b)"

text \<open>
  Modelled from the spec: \<open>intersection\<close>: the "result's origin is the max of the two
  origins projected on grid; size is pixel-count overlap; fails with NoOverlap when
  disjoint". The source also intersects footprints of different grids; the result
  then lies on the grid of the first one and its extent is the collaborator's.
\<close>

definition intersection :: "externals \<Rightarrow> footprint \<Rightarrow> footprint \<Rightarrow> error + footprint" where
  "intersection ext a b =
     (if \<not> share_area ext a b then Inl NoOverlap
      else if same_grid a b then
        Inr \<lparr>grid = grid a, tlx = max (tlx a) (tlx b), tly = max (tly a) (tly b),
             rsizex = nat (overlap_x a b), rsizey = nat (overlap_y a b)\<rparr>
      else
        (case x_intersection ext a b of
           (x, y, w, h) \<Rightarrow> Inr \<lparr>grid = grid a, tlx = x, tly = y, rsizex = w, rsizey = h\<rparr>))"

text \<open>
  Modelled from the spec: \<open>build_sampling_footprint\<close> "returns the smallest source-grid
  footprint whose pixel neighbors cover every destination pixel's interpolation kernel;
  returns NoneRequired if dst_fp does not intersect source". On the grid of the source
  no kernel is involved and that footprint is the intersection.
\<close>

definition build_sampling_footprint ::
  "externals \<Rightarrow> footprint \<Rightarrow> footprint \<Rightarrow> interpolation \<Rightarrow> footprint option" where
  "build_sampling_footprint ext self_fp f interp =
     (if \<not> share_area ext f self_fp then None
      else if same_grid f self_fp then
        (case intersection ext f self_fp of Inl e \<Rightarrow> None | Inr s \<Rightarrow> Some s)
      else Some (x_sampling_footprint ext self_fp f interp))"

subsection \<open>Tilings\<close>

text \<open>
  Modelled from the spec: \<^verbatim>\<open>fp.tile(size, 0, 0, boundary_effect='shrink')\<close>, the one way
  the source calls \<open>tile\<close>. It "generates a (TY, TX) grid of footprints"; "shrink clips
  the last row/column". A size that is not positive is refused.
\<close>

definition tile_count :: "nat \<Rightarrow> nat \<Rightarrow> nat" where
  "tile_count rsize tsize = (rsize + tsize - 1) div tsize"

definition tile_shrink :: "footprint \<Rightarrow> int \<times> int \<Rightarrow> error + footprint list list" where
  "tile_shrink f tsize =
     (if fst tsize \<le> 0 \<or> snd tsize \<le> 0 then Inl BadArgument
      else
        (let tw = nat (fst tsize); th = nat (snd tsize) in
         Inr (map (\<lambda>j. map (\<lambda>i.
                \<lparr>grid = grid f,
                 tlx = tlx f + int (i * tw), tly = tly f + int (j * th),
                 rsizex = min tw (rsizex f - i * tw), rsizey = min th (rsizey f - j * th)\<rparr>)
                [0..<tile_count (rsizex f) tw])
              [0..<tile_count (rsizey f) th])))"

text \<open>The pixels of a footprint, row by row.\<close>

definition pixels_of :: "footprint \<Rightarrow> (int \<times> int) list" where
  "pixels_of f =
     concat (map (\<lambda>y. map (\<lambda>x. (tlx f + int x, tly f + int y)) [0..<rsizex f]) [0..<rsizey f])"

definition disjoint_fp :: "footprint \<Rightarrow> footprint \<Rightarrow> bool" where
  "disjoint_fp a b = (overlap_x a b \<le> 0 \<or> overlap_y a b \<le> 0)"

fun pairwise_disjoint :: "footprint list \<Rightarrow> bool" where
  "pairwise_disjoint [] = True"
| "pairwise_disjoint (t # ts) = (list_all (disjoint_fp t) ts \<and> pairwise_disjoint ts)"

text \<open>
  Modelled from the spec: \<^verbatim>\<open>_tools.is_tiling_covering_fp\<close>, which is not among the
  source files. The tiles lie on the grid of the footprint and every pixel of the footprint lies in a
  tile ("covering"); unless outer pixels are allowed no tile has a pixel outside the
  footprint, and unless overlapping pixels are allowed no two tiles share a pixel
  ("exact-cover, no overlap").
\<close>

definition is_tiling_covering_fp :: "footprint list list \<Rightarrow> footprint \<Rightarrow> bool \<Rightarrow> bool \<Rightarrow> bool" where
  "is_tiling_covering_fp tiling f allow_outer_pixels allow_overlapping_pixels =
     (let tiles = concat tiling in
      list_all (\<lambda>t. same_grid t f \<and> 0 < rsizex t \<and> 0 < rsizey t) tiles
      \<and> list_all (\<lambda>p. list_ex (\<lambda>t. covers t p) tiles) (pixels_of f)
      \<and> (allow_outer_pixels \<or> list_all (\<lambda>t. list_all (covers f) (pixels_of t)) tiles)
      \<and> (allow_overlapping_pixels \<or> pairwise_disjoint tiles))"

section \<open>Arrays\<close>

text \<open>
  numpy is a library the source uses. Storing a value into an array of an integer
  dtype keeps the low bits of the value (\<open>dtype_cast\<close>); \<^verbatim>\<open>np.full\<close> stores its fill
  value into every element; \<^verbatim>\<open>astype(dtype, copy=False)\<close> returns the array itself
  when the array has the dtype already.
\<close>

definition dtype_cast :: "dtype \<Rightarrow> int \<Rightarrow> int" where
  "dtype_cast d v =
     (case d of
        UInt8 \<Rightarrow> v mod 256
      | UInt16 \<Rightarrow> v mod 65536
      | Int16 \<Rightarrow> (v + 32768) mod 65536 - 32768
      | UInt32 \<Rightarrow> v mod 4294967296
      | Int32 \<Rightarrow> (v + 2147483648) mod 4294967296 - 2147483648)"

definition representable :: "dtype \<Rightarrow> int \<Rightarrow> bool" where
  "representable d v = (dtype_cast d v = v)"

definition np_full :: "nat \<times> nat \<times> nat \<Rightarrow> int \<Rightarrow> dtype \<Rightarrow> ndarray" where
  "np_full shp fill_value d =
     (case shp of (ny, nx, nb) \<Rightarrow>
        \<lparr>adtype = d, ashape = shp,
         adata = replicate ny (replicate nx (replicate nb (dtype_cast d fill_value)))\<rparr>)"

definition np_ones :: "nat \<times> nat \<Rightarrow> mask" where
  "np_ones shp = replicate (fst shp) (replicate (snd shp) True)"

definition astype :: "dtype \<Rightarrow> ndarray \<Rightarrow> ndarray" where
  "astype d a =
     (if adtype a = d then a
      else a\<lparr>adtype := d, adata := map (map (map (dtype_cast d))) (adata a)\<rparr>)"

text \<open>The elements of an array are as many as its shape says.\<close>

definition wf_array :: "ndarray \<Rightarrow> bool" where
  "wf_array a =
     (case ashape a of (ny, nx, nb) \<Rightarrow>
        length (adata a) = ny
        \<and> list_all (\<lambda>row. length row = nx \<and> list_all (\<lambda>px. length px = nb) row) (adata a))"

definition wf_mask :: "nat \<times> nat \<Rightarrow> mask \<Rightarrow> bool" where
  "wf_mask shp m = (length m = fst shp \<and> list_all (\<lambda>row. length row = snd shp) m)"

text \<open>\<^verbatim>\<open>array[:, :, i]\<close>: the plane of one band; an index past the last axis raises.\<close>

definition band_plane :: "ndarray \<Rightarrow> nat \<Rightarrow> error + int list list" where
  "band_plane a i =
     (if i < snd (snd (ashape a)) then Inr (map (map (\<lambda>px. px ! i)) (adata a))
      else Inl IndexError)"

text \<open>Slicing clips the slice to the axis, as numpy does.\<close>

definition slice_stop :: "pyslice \<Rightarrow> nat \<Rightarrow> nat" where
  "slice_stop sl n = (case snd sl of None \<Rightarrow> n | Some e \<Rightarrow> min e n)"

definition slice_len :: "pyslice \<Rightarrow> nat \<Rightarrow> nat" where
  "slice_len sl n = slice_stop sl n - fst sl"

definition slice_list :: "pyslice \<Rightarrow> 'a list \<Rightarrow> 'a list" where
  "slice_list sl xs = drop (fst sl) (take (slice_stop sl (length xs)) xs)"

definition slice_matrix :: "pyslice \<times> pyslice \<Rightarrow> 'a list list \<Rightarrow> 'a list list" where
  "slice_matrix sl m = map (slice_list (snd sl)) (slice_list (fst sl) m)"

text \<open>
  \<^verbatim>\<open>_tools.slices_of_matrix\<close> is not among the source files and the spec does not
  describe it. The source reads \<^verbatim>\<open>sl[0].start\<close> and \<^verbatim>\<open>sl[1].start\<close> of every slice it yields and
  writes \<^verbatim>\<open>array[sl]\<close> there; without a mask the one slice is the whole array. The
  rectangles drawn from a mask are the collaborator's.
\<close>

definition slices_of_matrix :: "externals \<Rightarrow> mask option \<Rightarrow> (pyslice \<times> pyslice) list" where
  "slices_of_matrix ext m =
     (case m of None \<Rightarrow> [((0, None), (0, None))] | Some m' \<Rightarrow> x_slices_of_matrix ext m')"

section \<open>Remapping\<close>

text \<open>
  Modelled from the spec: \<^verbatim>\<open>remap\<close>, which is not among the source files. The result is
  an "array on destination grid"; "if src_fp.same_grid(dst_fp): pure slice/copy; no resampling
  path", and the pixels of the destination outside the source are "filled with
  dst_nodata". Otherwise every pixel of the destination comes from the interpolation,
  which is the collaborator's. A mask goes through the same way and comes back with the
  array. The array and the mask have to have the shape of the source footprint.
\<close>

definition remap_slice ::
  "footprint \<Rightarrow> footprint \<Rightarrow> ndarray \<Rightarrow> mask option \<Rightarrow> int \<Rightarrow> ndarray \<times> mask option" where
  "remap_slice src_fp dst_fp array m dst_nodata =
     (let nb = snd (snd (ashape array));
          inside = (\<lambda>y x. covers src_fp (tlx dst_fp + int x, tly dst_fp + int y));
          sy = (\<lambda>y. nat (tly dst_fp + int y - tly src_fp));
          sx = (\<lambda>x. nat (tlx dst_fp + int x - tlx src_fp))
      in (\<lparr>adtype = adtype array,
           ashape = (rsizey dst_fp, rsizex dst_fp, nb),
           adata = map (\<lambda>y. map (\<lambda>x.
                     if inside y x then adata array ! sy y ! sx x
                     else replicate nb (dtype_cast (adtype array) dst_nodata))
                     [0..<rsizex dst_fp]) [0..<rsizey dst_fp]\<rparr>,
          map_option (\<lambda>m'. map (\<lambda>y. map (\<lambda>x. inside y x \<and> m' ! sy y ! sx x)
                     [0..<rsizex dst_fp]) [0..<rsizey dst_fp]) m))"

definition remap_interpolate ::
  "externals \<Rightarrow> footprint \<Rightarrow> footprint \<Rightarrow> ndarray \<Rightarrow> mask option \<Rightarrow> int option \<Rightarrow> int
    \<Rightarrow> mask_mode \<Rightarrow> interpolation \<Rightarrow> ndarray \<times> mask option" where
  "remap_interpolate ext src_fp dst_fp array m src_nodata dst_nodata mmode interp =
     (case x_resample ext interp mmode src_fp dst_fp array m src_nodata dst_nodata of
        (d, value_at, valid_at) \<Rightarrow>
          (\<lparr>adtype = d,
            ashape = (rsizey dst_fp, rsizex dst_fp, snd (snd (ashape array))),
            adata = map (\<lambda>y. map (\<lambda>x. map (value_at y x) [0..<snd (snd (ashape array))])
                      [0..<rsizex dst_fp]) [0..<rsizey dst_fp]\<rparr>,
           map_option (\<lambda>m'. map (\<lambda>y. map (valid_at y) [0..<rsizex dst_fp])
                      [0..<rsizey dst_fp]) m))"

definition remap ::
  "externals \<Rightarrow> footprint \<Rightarrow> footprint \<Rightarrow> ndarray \<Rightarrow> mask option \<Rightarrow> int option \<Rightarrow> int
    \<Rightarrow> mask_mode \<Rightarrow> interpolation \<Rightarrow> error + ndarray \<times> mask option" where
  "remap ext src_fp dst_fp array m src_nodata dst_nodata mmode interp =
     (if (fst (ashape array), fst (snd (ashape array))) \<noteq> shape src_fp then Inl BadArgument
      else if (case m of None \<Rightarrow> False | Some m' \<Rightarrow> \<not> wf_mask (shape src_fp) m') then
        Inl BadArgument
      else if same_grid src_fp dst_fp then
        Inr (remap_slice src_fp dst_fp array m dst_nodata)
      else
        Inr (remap_interpolate ext src_fp dst_fp array m src_nodata dst_nodata mmode interp))"

section \<open>The GDAL dataset of a file raster\<close>

text \<open>
  GDAL is the native driver, a library outside of the source files; what follows is what
  its documentation says of the calls that the file raster makes. A dataset has
  \<open>RasterCount\<close> bands of \<open>RasterYSize\<close> rows and \<open>RasterXSize\<close> columns, numbered from 1.
  \<open>band_data\<close> is what the file stores for a band, by row and column, and \<open>band_nodata\<close>
  is the nodata value of a band.

  Every band has a mask band, of 8 bits, that holds 0 for a pixel that is not valid and
  255 for a valid one. \<open>mask_flags\<close> says of which kind the mask band of a band is:
  \<^item> \<open>AllValid\<close>, the file has no mask for the band: the mask band is derived, it reads 255
    everywhere and it cannot be written;
  \<^item> \<open>NoDataMask\<close>, the band has a nodata value: the mask band is derived from the pixels
    of the band, 0 where the pixel is the nodata value, and it cannot be written;
  \<^item> \<open>AlphaMask a\<close>, the dataset has the alpha band \<open>a\<close> of 8 bits: the mask band is that
    band itself;
  \<^item> \<open>RescaledAlphaMask a\<close>, the dataset has the alpha band \<open>a\<close> of 16 bits: the mask band
    is derived from the alpha band, whose values \<open>rescaled_alpha\<close> brings to 8 bits, and
    it cannot be written;
  \<^item> \<open>StoredMask m\<close>, a mask band was created and is stored with the file; the bands
    with a mask for the whole dataset share the number \<open>m\<close>. \<open>mask_data\<close> says
    which pixels of it are valid.
\<close>

datatype band_id = IntId int | ComplexId int

datatype mask_kind =
  AllValid | NoDataMask | AlphaMask nat | RescaledAlphaMask nat | StoredMask nat

datatype gdal_band =
  RasterBand nat | AllValidMaskBand | NoDataMaskBand nat | RescaledAlphaBand nat
  | StoredMaskBand nat

record gdal_dataset =
  RasterCount :: nat
  RasterXSize :: nat
  RasterYSize :: nat
  mask_flags :: "nat \<Rightarrow> mask_kind"
  band_nodata :: "nat \<Rightarrow> int option"
  band_data :: "nat \<Rightarrow> nat \<Rightarrow> nat \<Rightarrow> int"
  mask_data :: "nat \<Rightarrow> nat \<Rightarrow> nat \<Rightarrow> bool"
  rescaled_alpha :: "int \<Rightarrow> int"

text \<open>\<^verbatim>\<open>GetRasterBand\<close> has no band for a number outside \<open>1..RasterCount\<close>.\<close>

definition GetRasterBand :: "gdal_dataset \<Rightarrow> int \<Rightarrow> error + nat" where
  "GetRasterBand gdal_ds k =
     (if 1 \<le> k \<and> k \<le> int (RasterCount gdal_ds) then Inr (nat k) else Inl DriverError)"

text \<open>\<^verbatim>\<open>GetMaskBand\<close> of the band \<open>n\<close>.\<close>

definition GetMaskBand :: "gdal_dataset \<Rightarrow> nat \<Rightarrow> gdal_band" where
  "GetMaskBand gdal_ds n =
     (case mask_flags gdal_ds n of
        AllValid \<Rightarrow> AllValidMaskBand
      | NoDataMask \<Rightarrow> NoDataMaskBand n
      | AlphaMask a \<Rightarrow> RasterBand a
      | RescaledAlphaMask a \<Rightarrow> RescaledAlphaBand a
      | StoredMask m \<Rightarrow> StoredMaskBand m)"

text \<open>
  \<^verbatim>\<open>_gdalband_of_band_id\<close>: an \<^verbatim>\<open>int\<close> names a band; any other identifier is a complex
  number whose imaginary part names the band whose mask band is meant.
\<close>

definition gdalband_of_band_id :: "gdal_dataset \<Rightarrow> band_id \<Rightarrow> error + gdal_band" where
  "gdalband_of_band_id gdal_ds ident =
     (case ident of
        IntId k \<Rightarrow> bind (GetRasterBand gdal_ds k) (\<lambda>n. Inr (RasterBand n))
      | ComplexId k \<Rightarrow> bind (GetRasterBand gdal_ds k) (\<lambda>n. Inr (GetMaskBand gdal_ds n)))"

text \<open>The value that a band has in a pixel.\<close>

definition band_value :: "gdal_dataset \<Rightarrow> gdal_band \<Rightarrow> nat \<Rightarrow> nat \<Rightarrow> int" where
  "band_value gdal_ds band row col =
     (case band of
        RasterBand n \<Rightarrow> band_data gdal_ds n row col
      | AllValidMaskBand \<Rightarrow> 255
      | NoDataMaskBand n \<Rightarrow>
          (if band_nodata gdal_ds n = Some (band_data gdal_ds n row col) then 0 else 255)
      | RescaledAlphaBand a \<Rightarrow> rescaled_alpha gdal_ds (band_data gdal_ds a row col)
      | StoredMaskBand m \<Rightarrow> (if mask_data gdal_ds m row col then 255 else 0))"

text \<open>
  \<^verbatim>\<open>ReadAsArray(xoff, yoff, xsize, ysize)\<close> returns \<^verbatim>\<open>None\<close> for a window that leaves the
  raster. \<^verbatim>\<open>WriteArray(a, xoff, yoff)\<close> reports such a window, and a band that cannot be
  written, by its return value, which the source does not read, and writes nothing
  then. In a stored mask band a pixel is valid when the value written is not 0.
\<close>

definition ReadAsArray ::
  "gdal_dataset \<Rightarrow> gdal_band \<Rightarrow> int \<Rightarrow> int \<Rightarrow> nat \<Rightarrow> nat \<Rightarrow> int list list option" where
  "ReadAsArray gdal_ds band xoff yoff xsize ysize =
     (if 0 \<le> xoff \<and> 0 \<le> yoff
         \<and> xoff + int xsize \<le> int (RasterXSize gdal_ds)
         \<and> yoff + int ysize \<le> int (RasterYSize gdal_ds)
      then Some (map (\<lambda>y. map (\<lambda>x. band_value gdal_ds band (nat yoff + y) (nat xoff + x))
                  [0..<xsize]) [0..<ysize])
      else None)"

definition WriteArray ::
  "gdal_dataset \<Rightarrow> gdal_band \<Rightarrow> int list list \<Rightarrow> nat \<times> nat \<Rightarrow> int \<Rightarrow> int \<Rightarrow> gdal_dataset" where
  "WriteArray gdal_ds band a a_shape xoff yoff =
     (case a_shape of (h, w) \<Rightarrow>
        if 0 \<le> xoff \<and> 0 \<le> yoff
           \<and> xoff + int w \<le> int (RasterXSize gdal_ds)
           \<and> yoff + int h \<le> int (RasterYSize gdal_ds)
        then
          (case band of
             RasterBand n \<Rightarrow>
               gdal_ds\<lparr>band_data := (band_data gdal_ds)(n :=
                 (\<lambda>row col.
                    if nat yoff \<le> row \<and> row < nat yoff + h \<and> nat xoff \<le> col \<and> col < nat xoff + w
                    then a ! (row - nat yoff) ! (col - nat xoff)
                    else band_data gdal_ds n row col))\<rparr>
           | StoredMaskBand m \<Rightarrow>
               gdal_ds\<lparr>mask_data := (mask_data gdal_ds)(m :=
                 (\<lambda>row col.
                    if nat yoff \<le> row \<and> row < nat yoff + h \<and> nat xoff \<le> col \<and> col < nat xoff + w
                    then a ! (row - nat yoff) ! (col - nat xoff) \<noteq> 0
                    else mask_data gdal_ds m row col))\<rparr>
           | AllValidMaskBand \<Rightarrow> gdal_ds
           | NoDataMaskBand n \<Rightarrow> gdal_ds
           | RescaledAlphaBand n \<Rightarrow> gdal_ds)
        else gdal_ds)"

section \<open>The file raster\<close>

text \<open>
  \<^verbatim>\<open>BackGDALFileRaster\<close>: of the attributes its constructor passes on, the methods below
  read \<open>uid\<close>, \<open>fp\<close>, \<open>dtype\<close> and \<open>nodata\<close>. The state they work on is the back data
  source, whose activation pool leases the driver object, and the file. The raster is
  open for writing.
\<close>

record file_raster =
  r_uid :: nat
  r_fp :: footprint
  r_dtype :: dtype
  r_nodata :: "int option"

record raster_state =
  rs_back :: back_ds
  rs_file :: gdal_dataset

text \<open>The loop of \<^verbatim>\<open>get_data_driver\<close> over the bands; a band that cannot be read raises.\<close>

fun read_bands ::
  "gdal_dataset \<Rightarrow> int \<Rightarrow> int \<Rightarrow> nat \<Rightarrow> nat \<Rightarrow> band_id list \<Rightarrow> error + int list list list" where
  "read_bands gdal_ds rtlx rtly w h [] = Inr []"
| "read_bands gdal_ds rtlx rtly w h (band_id # rest) =
     bind (gdalband_of_band_id gdal_ds band_id) (\<lambda>gdal_band.
       case ReadAsArray gdal_ds gdal_band rtlx rtly w h of
         None \<Rightarrow> Inl DriverError
       | Some a \<Rightarrow> bind (read_bands gdal_ds rtlx rtly w h rest) (\<lambda>planes. Inr (a # planes)))"

text \<open>\<^verbatim>\<open>dstarray[..., i]\<close> is the plane read for the \<open>i\<close>-th band.\<close>

definition dstarray_of :: "nat \<times> nat \<Rightarrow> dtype \<Rightarrow> int list list list \<Rightarrow> ndarray" where
  "dstarray_of shp d planes =
     \<lparr>adtype = d, ashape = (fst shp, snd shp, length planes),
      adata = map (\<lambda>y. map (\<lambda>x. map (\<lambda>plane. plane ! y ! x) planes) [0..<snd shp]) [0..<fst shp]\<rparr>"

definition get_data_driver ::
  "file_raster \<Rightarrow> footprint \<Rightarrow> band_id list \<Rightarrow> gdal_dataset \<Rightarrow> error + ndarray" where
  "get_data_driver r f band_ids driver_obj =
     (case spatial_to_raster (r_fp r) (tl_point f) of (rtlx, rtly) \<Rightarrow>
        if \<not> (rtlx \<ge> 0 \<and> rtlx < int (rsizex (r_fp r))) then Inl AssertionError
        else if \<not> (rtly \<ge> 0 \<and> rtly < int (rsizey (r_fp r))) then Inl AssertionError
        else bind (read_bands driver_obj rtlx rtly (rsizex f) (rsizey f) band_ids)
               (\<lambda>planes. Inr (dstarray_of (shape f) (r_dtype r) planes)))"

definition sample ::
  "file_raster \<Rightarrow> footprint \<Rightarrow> band_id list \<Rightarrow> raster_state \<Rightarrow> error + ndarray \<times> raster_state" where
  "sample r f band_ids st =
     (if \<not> same_grid f (r_fp r) then Inl AssertionError
      else
        (let st' = st\<lparr>rs_back := acquire_driver_object (r_uid r) (rs_back st)\<rparr> in
         bind (get_data_driver r f band_ids (rs_file st')) (\<lambda>a. Inr (a, st'))))"

definition get_data ::
  "externals \<Rightarrow> file_raster \<Rightarrow> footprint \<Rightarrow> band_id list \<Rightarrow> int \<Rightarrow> interpolation
    \<Rightarrow> raster_state \<Rightarrow> error + ndarray \<times> raster_state" where
  "get_data ext r f band_ids dst_nodata interp st =
     (case build_sampling_footprint ext (r_fp r) f interp of
        None \<Rightarrow>
          Inr (np_full (fst (shape f), snd (shape f), length band_ids) dst_nodata (r_dtype r), st)
      | Some samplefp \<Rightarrow>
          bind (sample r samplefp band_ids st) (\<lambda>(array, st').
          bind (remap ext samplefp f array None (r_nodata r) dst_nodata Erode interp)
            (\<lambda>(array', m). Inr (astype (r_dtype r) array', st'))))"

text \<open>\<^verbatim>\<open>self.nodata or 0\<close>.\<close>

definition nodata_or_0 :: "file_raster \<Rightarrow> int" where
  "nodata_or_0 r = (case r_nodata r of None \<Rightarrow> 0 | Some v \<Rightarrow> if v = 0 then 0 else v)"

text \<open>The inner loop of \<^verbatim>\<open>set_data\<close>, over the slices of the mask, for the band \<open>i\<close>.\<close>

fun write_slices ::
  "file_raster \<Rightarrow> gdal_band \<Rightarrow> ndarray \<Rightarrow> nat \<Rightarrow> int \<Rightarrow> int \<Rightarrow> (pyslice \<times> pyslice) list
    \<Rightarrow> gdal_dataset \<Rightarrow> error + gdal_dataset" where
  "write_slices r gdalband array i leftx topy [] gdal_ds = Inr gdal_ds"
| "write_slices r gdalband array i leftx topy (sl # rest) gdal_ds =
     bind (band_plane array i) (\<lambda>plane.
       let a = slice_matrix sl plane;
           a_shape = (slice_len (fst sl) (fst (ashape array)),
                      slice_len (snd sl) (fst (snd (ashape array))));
           x = int (fst (snd sl)) + leftx;
           y = int (fst (fst sl)) + topy
       in if \<not> x \<ge> 0 then Inl AssertionError
          else if \<not> y \<ge> 0 then Inl AssertionError
          else if \<not> x + int (snd a_shape) \<le> int (rsizex (r_fp r)) then Inl AssertionError
          else if \<not> y + int (fst a_shape) \<le> int (rsizey (r_fp r)) then Inl AssertionError
          else write_slices r gdalband array i leftx topy rest
                 (WriteArray gdal_ds gdalband a a_shape x y))"

text \<open>The outer loop of \<^verbatim>\<open>set_data\<close>, over \<^verbatim>\<open>enumerate(band_ids)\<close>.\<close>

fun write_bands ::
  "externals \<Rightarrow> file_raster \<Rightarrow> ndarray \<Rightarrow> footprint \<Rightarrow> mask option \<Rightarrow> (nat \<times> band_id) list
    \<Rightarrow> gdal_dataset \<Rightarrow> error + gdal_dataset" where
  "write_bands ext r array f m [] gdal_ds = Inr gdal_ds"
| "write_bands ext r array f m ((i, band_id) # rest) gdal_ds =
     (case spatial_to_raster (r_fp r) (tl_point f) of (leftx, topy) \<Rightarrow>
        bind (gdalband_of_band_id gdal_ds band_id) (\<lambda>gdalband.
        bind (write_slices r gdalband array i leftx topy (slices_of_matrix ext m) gdal_ds)
          (\<lambda>gdal_ds'. write_bands ext r array f m rest gdal_ds')))"

definition set_data ::
  "externals \<Rightarrow> file_raster \<Rightarrow> ndarray \<Rightarrow> footprint \<Rightarrow> band_id list \<Rightarrow> interpolation
    \<Rightarrow> mask option \<Rightarrow> raster_state \<Rightarrow> error + raster_state" where
  "set_data ext r array f band_ids interp m st =
     (if \<not> share_area ext f (r_fp r) then Inr st
      else
        (let m1 = (if \<not> same_grid f (r_fp r) \<and> m = None then Some (np_ones (shape f)) else m) in
         bind (intersection ext (r_fp r) f) (\<lambda>dstfp.
         bind (remap ext f dstfp array m1 (r_nodata r) (nodata_or_0 r) Erode interp)
           (\<lambda>(array1, m2).
              let array2 = astype (r_dtype r) array1;
                  st' = st\<lparr>rs_back := acquire_driver_object (r_uid r) (rs_back st)\<rparr>
              in bind (write_bands ext r array2 dstfp m2 (List.enumerate 0 band_ids) (rs_file st'))
                   (\<lambda>gdal_ds'. Inr (st'\<lparr>rs_file := gdal_ds'\<rparr>))))))"

section \<open>Recipes\<close>

text \<open>
  Arguments of the factories that Python types dynamically. An opaque Python object
  is named by a number.
\<close>

type_synonym pyobject = nat

datatype pycallable = Callable pyobject | IdentityFunction | NotCallable pyobject

datatype pool_param = PoolName string | PoolObject pyobject | PoolNone

datatype cache_dir_param = CacheDirNone | CacheDirPath string | CacheDirOther pyobject

text \<open>
  \<^verbatim>\<open>cache_tiles\<close> and \<^verbatim>\<open>computation_tiles\<close>: a numpy array of dtype object holding
  footprints, or anything else, which the source hands to \<^verbatim>\<open>fp.tile\<close> as a tile size.
\<close>

datatype tiles_param = ObjectArray "footprint list list" | TileSize "int \<times> int"

definition callable :: "pycallable \<Rightarrow> bool" where
  "callable c = (case c of NotCallable x \<Rightarrow> False | _ \<Rightarrow> True)"

subsection \<open>The recipe that is not cached\<close>

record raster_recipe_args =
  rr_key :: string
  rr_fp :: footprint
  rr_dtype :: dtype
  rr_band_count :: int
  rr_band_schema :: "pyobject option"
  rr_sr :: "string option"
  rr_compute_array :: "pycallable option"
  rr_merge_arrays :: pycallable
  rr_queue_data_per_primitive :: "(string \<times> pyobject) list"
  rr_convert_footprint_per_primitive :: "(string \<times> pycallable) list option"
  rr_computation_pool :: pool_param
  rr_merge_pool :: pool_param
  rr_resample_pool :: pool_param
  rr_computation_tiles :: "tiles_param option"
  rr_max_computation_size :: "int option"
  rr_max_resampling_size :: "int option"
  rr_automatic_remapping :: bool

text \<open>
  The body of \<^verbatim>\<open>create_raster_recipe\<close> is the docstring and \<^verbatim>\<open>pass\<close>: the value is
  \<^verbatim>\<open>None\<close> and the DataSource is the one it was called on.
\<close>

definition create_raster_recipe ::
  "raster_recipe_args \<Rightarrow> datasource \<Rightarrow> proxy option \<times> datasource" where
  "create_raster_recipe args ds = (None, ds)"

subsection \<open>The cached recipe\<close>

record cached_recipe_args =
  a_key :: string
  a_fp :: footprint
  a_dtype :: dtype
  a_band_count :: int
  a_band_schema :: "pyobject option"
  a_sr :: "string option"
  a_compute_array :: "pycallable option"
  a_merge_arrays :: pycallable
  a_cache_dir :: cache_dir_param
  a_o :: bool
  a_queue_data_per_primitive :: "(string \<times> pyobject) list"
  a_convert_footprint_per_primitive :: "(string \<times> pycallable) list option"
  a_computation_pool :: pool_param
  a_merge_pool :: pool_param
  a_io_pool :: pool_param
  a_resample_pool :: pool_param
  a_cache_tiles :: tiles_param
  a_computation_tiles :: "tiles_param option"
  a_max_resampling_size :: "int option"

text \<open>
  The collaborators of \<^verbatim>\<open>create_cached_raster_recipe\<close> that are not among the
  source files: the spatial reference library, \<^verbatim>\<open>BackDataSource.convert_footprint\<close> and
  \<^verbatim>\<open>normalize_pool_parameter\<close>, \<^verbatim>\<open>_tools.sanitize_band_schema\<close> and
  \<^verbatim>\<open>_tools.shatter_queue_data_method\<close> (which yields the id of the DataSource the
  primitive belongs to, and its keyword arguments), and the uid of the new source.
  Each of them may raise.
\<close>

record recipe_externals =
  rx_GetUserInputAsWKT :: "string \<Rightarrow> string option"
  rx_convert_footprint :: "back_ds \<Rightarrow> footprint \<Rightarrow> string \<Rightarrow> error + footprint"
  rx_sanitize_band_schema :: "pyobject option \<Rightarrow> int \<Rightarrow> error + pyobject"
  rx_shatter_queue_data_method :: "pyobject \<Rightarrow> string \<Rightarrow> error + nat \<times> pyobject"
  rx_normalize_pool_parameter :: "back_ds \<Rightarrow> pool_param \<Rightarrow> string \<Rightarrow> error + pyobject option"
  rx_uuid4 :: nat

record cached_raster_recipe =
  cr_uid :: nat
  cr_fp :: footprint
  cr_dtype :: dtype
  cr_band_count :: int
  cr_band_schema :: pyobject
  cr_sr :: "string option"
  cr_compute_array :: pycallable
  cr_merge_arrays :: pycallable
  cr_cache_dir :: string
  cr_overwrite :: bool
  cr_primitives :: "(string \<times> nat \<times> pyobject) list"
  cr_convert_footprint_per_primitive :: "(string \<times> pycallable) list"
  cr_pools :: "pyobject option \<times> pyobject option \<times> pyobject option \<times> pyobject option"
  cr_cache_tiles :: "footprint list list"
  cr_computation_tiles :: "footprint list list"
  cr_max_resampling_size :: "int option"

text \<open>"Classic RasterProxy parameters": the key, the band count, the band schema, the
  spatial reference and the footprint converted to the working spatial reference.\<close>

definition check_raster_parameters ::
  "recipe_externals \<Rightarrow> datasource \<Rightarrow> cached_recipe_args
    \<Rightarrow> error + footprint \<times> pyobject \<times> string option" where
  "check_raster_parameters rx ds args =
     bind (validate_key ds (a_key args)) (\<lambda>_.
       if a_band_count args \<le> 0 then Inl BadArgument
       else
         bind (rx_sanitize_band_schema rx (a_band_schema args) (a_band_count args)) (\<lambda>band_schema.
         bind (to_wkt (rx_GetUserInputAsWKT rx) (a_sr args)) (\<lambda>sr.
           case sr of
             None \<Rightarrow> Inr (a_fp args, band_schema, sr)
           | Some w \<Rightarrow>
               bind (rx_convert_footprint rx (ds_back ds) (a_fp args) w)
                 (\<lambda>f. Inr (f, band_schema, sr)))))"

text \<open>"Callables".\<close>

definition check_callables :: "cached_recipe_args \<Rightarrow> error + pycallable" where
  "check_callables args =
     (case a_compute_array args of
        None \<Rightarrow> Inl BadArgument
      | Some c \<Rightarrow>
          if \<not> callable c then Inl TypeError
          else if \<not> callable (a_merge_arrays args) then Inl TypeError
          else Inr c)"

text \<open>"Primitives".\<close>

fun shatter_all ::
  "recipe_externals \<Rightarrow> datasource \<Rightarrow> (string \<times> pyobject) list
    \<Rightarrow> error + (string \<times> nat \<times> pyobject) list" where
  "shatter_all rx ds [] = Inr []"
| "shatter_all rx ds ((name, met) # rest) =
     bind (rx_shatter_queue_data_method rx met name) (\<lambda>(prim_ds_id, kwargs).
       if prim_ds_id \<noteq> ds_id (ds_back ds) then Inl BadArgument
       else bind (shatter_all rx ds rest) (\<lambda>prims. Inr ((name, prim_ds_id, kwargs) # prims)))"

definition check_primitives ::
  "recipe_externals \<Rightarrow> datasource \<Rightarrow> cached_recipe_args
    \<Rightarrow> error + (string \<times> nat \<times> pyobject) list \<times> (string \<times> pycallable) list" where
  "check_primitives rx ds args =
     (let convert_footprint_per_primitive =
            (case a_convert_footprint_per_primitive args of
               None \<Rightarrow> map (\<lambda>(name, met). (name, IdentityFunction)) (a_queue_data_per_primitive args)
             | Some c \<Rightarrow> c)
      in if set (map fst (a_queue_data_per_primitive args))
              \<noteq> set (map fst convert_footprint_per_primitive)
         then Inl BadArgument
         else
           bind (shatter_all rx ds (a_queue_data_per_primitive args)) (\<lambda>prims.
             if \<not> list_all (\<lambda>(name, func). callable func) convert_footprint_per_primitive
             then Inl TypeError
             else Inr (prims, convert_footprint_per_primitive)))"

text \<open>"Pools".\<close>

definition check_pools ::
  "recipe_externals \<Rightarrow> datasource \<Rightarrow> cached_recipe_args
    \<Rightarrow> error + pyobject option \<times> pyobject option \<times> pyobject option \<times> pyobject option" where
  "check_pools rx ds args =
     bind (rx_normalize_pool_parameter rx (ds_back ds) (a_computation_pool args) ''computation_pool'')
       (\<lambda>computation_pool.
     bind (rx_normalize_pool_parameter rx (ds_back ds) (a_merge_pool args) ''merge_pool'')
       (\<lambda>merge_pool.
     bind (rx_normalize_pool_parameter rx (ds_back ds) (a_io_pool args) ''io_pool'')
       (\<lambda>io_pool.
     bind (rx_normalize_pool_parameter rx (ds_back ds) (a_resample_pool args) ''resample_pool'')
       (\<lambda>resample_pool. Inr (computation_pool, merge_pool, io_pool, resample_pool)))))"

text \<open>
  "Tilings". The second test reads \<^verbatim>\<open>cache_tiles\<close>, as the source does, where the
  message it raises speaks of \<^verbatim>\<open>computation_tiles\<close>.
\<close>

definition check_cache_tiles :: "footprint \<Rightarrow> tiles_param \<Rightarrow> error + footprint list list" where
  "check_cache_tiles f cache_tiles =
     (case cache_tiles of
        ObjectArray tiling \<Rightarrow>
          if \<not> is_tiling_covering_fp tiling f False False then Inl (BadTiling CacheTiles)
          else Inr tiling
      | TileSize tsize \<Rightarrow> tile_shrink f tsize)"

definition check_computation_tiles ::
  "footprint \<Rightarrow> footprint list list \<Rightarrow> tiles_param option \<Rightarrow> error + footprint list list" where
  "check_computation_tiles f cache_tiles computation_tiles =
     (case computation_tiles of
        None \<Rightarrow> Inr cache_tiles
      | Some (ObjectArray tiling) \<Rightarrow>
          if \<not> is_tiling_covering_fp cache_tiles f True True then Inl (BadTiling ComputationTiles)
          else Inr tiling
      | Some (TileSize tsize) \<Rightarrow> tile_shrink f tsize)"

definition check_tilings ::
  "footprint \<Rightarrow> cached_recipe_args \<Rightarrow> error + footprint list list \<times> footprint list list" where
  "check_tilings f args =
     bind (check_cache_tiles f (a_cache_tiles args)) (\<lambda>cache_tiles.
     bind (check_computation_tiles f cache_tiles (a_computation_tiles args))
       (\<lambda>computation_tiles. Inr (cache_tiles, computation_tiles)))"

text \<open>"Misc".\<close>

definition check_misc :: "cached_recipe_args \<Rightarrow> error + int option \<times> string \<times> bool" where
  "check_misc args =
     (if (case a_max_resampling_size args of None \<Rightarrow> False | Some n \<Rightarrow> n \<le> 1)
      then Inl BadArgument
      else
        (case a_cache_dir args of
           CacheDirNone \<Rightarrow> Inl BadArgument
         | CacheDirOther x \<Rightarrow> Inl TypeError
         | CacheDirPath cache_dir \<Rightarrow> Inr (a_max_resampling_size args, cache_dir, a_o args)))"

text \<open>Everything the source checks before it comes to the tilings.\<close>

definition parameters_before_tilings ::
  "recipe_externals \<Rightarrow> datasource \<Rightarrow> cached_recipe_args
    \<Rightarrow> error + (footprint \<times> pyobject \<times> string option) \<times> pycallable
        \<times> ((string \<times> nat \<times> pyobject) list \<times> (string \<times> pycallable) list)
        \<times> (pyobject option \<times> pyobject option \<times> pyobject option \<times> pyobject option)" where
  "parameters_before_tilings rx ds args =
     bind (check_raster_parameters rx ds args) (\<lambda>raster.
     bind (check_callables args) (\<lambda>compute_array.
     bind (check_primitives rx ds args) (\<lambda>primitives.
     bind (check_pools rx ds args) (\<lambda>pools.
       Inr (raster, compute_array, primitives, pools)))))"

definition create_cached_raster_recipe ::
  "recipe_externals \<Rightarrow> cached_recipe_args \<Rightarrow> datasource
    \<Rightarrow> error + cached_raster_recipe \<times> datasource" where
  "create_cached_raster_recipe rx args ds =
     bind (parameters_before_tilings rx ds args)
       (\<lambda>((f, band_schema, sr), compute_array, (prims, converters), pools).
     bind (check_tilings f args) (\<lambda>(cache_tiles, computation_tiles).
     bind (check_misc args) (\<lambda>(max_resampling_size, cache_dir, overwrite).
       let prox = \<lparr>cr_uid = rx_uuid4 rx, cr_fp = f, cr_dtype = a_dtype args,
                   cr_band_count = a_band_count args, cr_band_schema = band_schema, cr_sr = sr,
                   cr_compute_array = compute_array, cr_merge_arrays = a_merge_arrays args,
                   cr_cache_dir = cache_dir, cr_overwrite = overwrite,
                   cr_primitives = prims, cr_convert_footprint_per_primitive = converters,
                   cr_pools = pools,
                   cr_cache_tiles = cache_tiles, cr_computation_tiles = computation_tiles,
                   cr_max_resampling_size = max_resampling_size\<rparr>
       in Inr (prox, register [a_key args] \<lparr>uid = cr_uid prox, pooled = False\<rparr> ds))))"

subsection \<open>Activation of all the pooled sources\<close>

text \<open>
  The loop of \<^verbatim>\<open>activate_all\<close> over \<^verbatim>\<open>itertools.cycle(proxs)\<close>: \<open>k\<close> counts the sources
  the cycle has yielded, \<open>i\<close> is the counter of the source. The cycle of an empty list
  yields nothing. The loop has no bound of its own, so the value is an option:
  \<open>None\<close> is the loop that never ends.
\<close>

partial_function (option) activate_cycle ::
  "proxy list \<Rightarrow> nat \<Rightarrow> nat \<Rightarrow> nat \<Rightarrow> back_ds \<Rightarrow> back_ds option" where
  "activate_cycle proxs n_total k i b =
     (if proxs = [] then Some b
      else if i = n_total then Some b
      else if \<not> is_active b (uid (proxs ! (k mod length proxs)))
           then activate_cycle proxs n_total (Suc k) 1
                  (activate (uid (proxs ! (k mod length proxs))) b)
           else activate_cycle proxs n_total (Suc k) (Suc i) b)"

definition pooled_proxies :: "datasource \<Rightarrow> proxy list" where
  "pooled_proxies ds = filter pooled (map fst (keys_of_proxy ds))"

definition activate_all :: "datasource \<Rightarrow> (error + datasource) option" where
  "activate_all ds =
     (let proxs = pooled_proxies ds; n_total = length proxs in
      if max_active (ds_back ds) < enat n_total then Some (Inl TooMany)
      else map_option (\<lambda>b. Inr (ds\<lparr>ds_back := b\<rparr>))
             (activate_cycle proxs n_total 0 0 (ds_back ds)))"

section \<open>Footprints of a raster\<close>

text \<open>The invariant of a footprint: "rx, ry >= 1".\<close>

definition valid_footprint :: "footprint \<Rightarrow> bool" where
  "valid_footprint f = (0 < rsizex f \<and> 0 < rsizey f)"

text \<open>A footprint on the grid of another one and fully contained in it.\<close>

definition contained_in :: "footprint \<Rightarrow> footprint \<Rightarrow> bool" where
  "contained_in f outer =
     (same_grid f outer
      \<and> tlx outer \<le> tlx f \<and> tlx f + int (rsizex f) \<le> tlx outer + int (rsizex outer)
      \<and> tly outer \<le> tly f \<and> tly f + int (rsizey f) \<le> tly outer + int (rsizey outer))"

text \<open>The file has the size of the footprint of the raster that was opened on it.\<close>

definition file_of_raster :: "file_raster \<Rightarrow> gdal_dataset \<Rightarrow> bool" where
  "file_of_raster r gdal_ds =
     (RasterXSize gdal_ds = rsizex (r_fp r) \<and> RasterYSize gdal_ds = rsizey (r_fp r))"

section \<open>Sequences of calls\<close>



text \<open>
  \<^verbatim>\<open>set_data(array, fp, band_ids, interpolation, mask=None)\<close> and then
  \<^verbatim>\<open>get_data(fp, band_ids, dst_nodata, interpolation)\<close>: the array that is read back.
\<close>

definition set_then_get ::
  "externals \<Rightarrow> file_raster \<Rightarrow> ndarray \<Rightarrow> footprint \<Rightarrow> band_id list \<Rightarrow> interpolation \<Rightarrow> int
    \<Rightarrow> raster_state \<Rightarrow> error + ndarray" where
  "set_then_get ext r array f band_ids interp dst_nodata st =
     bind (set_data ext r array f band_ids interp None st) (\<lambda>st1.
     bind (get_data ext r f band_ids dst_nodata interp st1) (\<lambda>(array', st2). Inr array'))"

section \<open>Concrete inputs\<close>

text \<open>
  A DataSource with three sources, two of them pooled and one of these active, and a
  file raster of 4 by 3 pixels with two bands of dtype uint8, without nodata value,
  alpha band or stored mask.
\<close>

definition example_back :: back_ds where
  "example_back =
     \<lparr>wkt_work = None, wkt_fallback = None, wkt_forced = None,
      analyse_transformation = True, allow_none_geometry = False, allow_interpolation = False,
      max_active = 2, ds_id = 7, ap_active = [3], ap_leases = 0, events = []\<rparr>"

definition example_ds :: datasource where
  "example_ds =
     \<lparr>ds_closed = False, ds_back = example_back,
      keys_of_proxy = [(\<lparr>uid = 1, pooled = True\<rparr>, [''dem'']),
                       (\<lparr>uid = 2, pooled = False\<rparr>, [''array'']),
                       (\<lparr>uid = 3, pooled = True\<rparr>, [])]\<rparr>"

definition example_fp :: footprint where
  "example_fp = \<lparr>grid = 0, tlx = 0, tly = 0, rsizex = 4, rsizey = 3\<rparr>"


definition example_raster :: file_raster where
  "example_raster = \<lparr>r_uid = 1, r_fp = example_fp, r_dtype = UInt8, r_nodata = None\<rparr>"

definition example_file :: gdal_dataset where
  "example_file =
     \<lparr>RasterCount = 2, RasterXSize = 4, RasterYSize = 3, mask_flags = (\<lambda>n. AllValid),
      band_nodata = (\<lambda>n. None), band_data = (\<lambda>n row col. 0),
      mask_data = (\<lambda>m row col. False), rescaled_alpha = (\<lambda>v. v div 257)\<rparr>"

definition example_state :: raster_state where
  "example_state = \<lparr>rs_back = example_back, rs_file = example_file\<rparr>"

text \<open>
  Collaborators for the concrete inputs: footprints of different grids always overlap,
  the window to sample is the whole raster, and the interpolation yields 300 in every
  pixel, as an array of dtype int32.
\<close>

definition example_ext :: externals where
  "example_ext =
     \<lparr>x_share_area = (\<lambda>a b. True),
      x_intersection = (\<lambda>a b. (tlx a, tly a, rsizex a, rsizey a)),
      x_sampling_footprint = (\<lambda>self_fp f interp. self_fp),
      x_resample = (\<lambda>interp mmode src_fp dst_fp array m src_nodata dst_nodata.
                      (Int32, (\<lambda>y x band. 300), (\<lambda>y x. True))),
      x_slices_of_matrix = (\<lambda>m. [((0, None), (0, None))])\<rparr>"

text \<open>
  A window of 2 by 2 pixels inside the file raster, and an array of two bands for it.
\<close>

definition example_window :: footprint where
  "example_window = \<lparr>grid = 0, tlx = 1, tly = 1, rsizex = 2, rsizey = 2\<rparr>"

definition example_array :: ndarray where
  "example_array =
     \<lparr>adtype = UInt8, ashape = (2, 2, 2),
      adata = [[[1, 2], [3, 4]], [[5, 6], [7, 8]]]\<rparr>"

text \<open>
  Arguments for a cached recipe on the footprint of 4 by 3 pixels: the cache tiles are
  its left and its right half; the one computation tile is a single pixel.
\<close>

definition example_rx :: recipe_externals where
  "example_rx =
     \<lparr>rx_GetUserInputAsWKT = Some,
      rx_convert_footprint = (\<lambda>b f w. Inr f),
      rx_sanitize_band_schema = (\<lambda>schema n. Inr 0),
      rx_shatter_queue_data_method = (\<lambda>met name. Inr (7, 0)),
      rx_normalize_pool_parameter = (\<lambda>b p name. Inr (case p of PoolNone \<Rightarrow> None | _ \<Rightarrow> Some 0)),
      rx_uuid4 = 4\<rparr>"

definition example_halves :: "footprint list list" where
  "example_halves = [[example_fp\<lparr>rsizex := 2\<rparr>, example_fp\<lparr>tlx := 2, rsizex := 2\<rparr>]]"

definition example_pixel :: "footprint list list" where
  "example_pixel = [[example_fp\<lparr>rsizex := 1, rsizey := 1\<rparr>]]"

definition example_cached_args :: cached_recipe_args where
  "example_cached_args =
     \<lparr>a_key = ''slopes'', a_fp = example_fp, a_dtype = UInt8, a_band_count = 1,
      a_band_schema = None, a_sr = None, a_compute_array = Some (Callable 0),
      a_merge_arrays = Callable 1, a_cache_dir = CacheDirPath ''cache'', a_o = False,
      a_queue_data_per_primitive = [], a_convert_footprint_per_primitive = None,
      a_computation_pool = PoolName ''cpu'', a_merge_pool = PoolName ''cpu'',
      a_io_pool = PoolName ''io'', a_resample_pool = PoolName ''cpu'',
      a_cache_tiles = ObjectArray example_halves,
      a_computation_tiles = Some (ObjectArray example_pixel),
      a_max_resampling_size = None\<rparr>"

section \<open>Properties\<close>

subsection \<open>Auxiliary facts\<close>

lemma bind_Inr [simp]: "bind (Inr x) f = f x"
  by (simp add: bind_def)

lemma bind_Inl [simp]: "bind (Inl e) f = Inl e"
  by (simp add: bind_def)

subsection \<open>Construction of a DataSource\<close>

lemma to_wkt_understood:
  "understood G sr \<Longrightarrow> \<exists>w. to_wkt G sr = Inr w"
  by (auto simp: understood_def to_wkt_def split: option.splits)

lemma sr_mode_illegal:
  "\<not> legal_sr_combination (w \<noteq> None) (f \<noteq> None) (c \<noteq> None) \<Longrightarrow> sr_mode G w f c = Inl BadSrMode"
  by (cases w; cases f; cases c) (simp_all add: legal_sr_combination_def sr_mode_def)


lemma sr_mode_legal:
  assumes "legal_sr_combination (w \<noteq> None) (f \<noteq> None) (c \<noteq> None)"
    and "understood G w" "understood G f" "understood G c"
  shows "\<exists>t. sr_mode G w f c = Inr t"
  using assms
  by (cases w; cases f; cases c)
     (auto simp: legal_sr_combination_def sr_mode_def to_wkt_def understood_def)


text \<open>
  C4. The constructor fails with \<open>BadSrMode\<close> for every combination of present and
  absent \<open>sr_work\<close>, \<open>sr_fallback\<close>, \<open>sr_forced\<close> outside of the four legal ones, whatever
  the other arguments are. For each of the four legal ones it succeeds (given a
  \<open>max_active\<close> of at least 1 and spatial references that the library understands),
  and it succeeds for no other combination.
\<close>

theorem DataSource_init_sr_combinations:
  "(\<not> legal_sr_combination (sr_work \<noteq> None) (sr_fallback \<noteq> None) (sr_forced \<noteq> None)
      \<longrightarrow> DataSource_init G self_id sr_work sr_fallback sr_forced an ng ai ma = Inl BadSrMode)
   \<and> (legal_sr_combination (sr_work \<noteq> None) (sr_fallback \<noteq> None) (sr_forced \<noteq> None)
        \<and> 1 \<le> ma \<and> understood G sr_work \<and> understood G sr_fallback \<and> understood G sr_forced
      \<longrightarrow> (\<exists>ds. DataSource_init G self_id sr_work sr_fallback sr_forced an ng ai ma = Inr ds))
   \<and> ((\<exists>ds. DataSource_init G self_id sr_work sr_fallback sr_forced an ng ai ma = Inr ds)
      \<longrightarrow> legal_sr_combination (sr_work \<noteq> None) (sr_fallback \<noteq> None) (sr_forced \<noteq> None))"
proof -
  have illegal: "DataSource_init G self_id sr_work sr_fallback sr_forced an ng ai ma = Inl BadSrMode"
    if "\<not> legal_sr_combination (sr_work \<noteq> None) (sr_fallback \<noteq> None) (sr_forced \<noteq> None)"
    using that by (simp add: DataSource_init_def sr_mode_illegal)
  have legal: "\<exists>ds. DataSource_init G self_id sr_work sr_fallback sr_forced an ng ai ma = Inr ds"
    if l: "legal_sr_combination (sr_work \<noteq> None) (sr_fallback \<noteq> None) (sr_forced \<noteq> None)"
      and m: "1 \<le> ma"
      and u: "understood G sr_work" "understood G sr_fallback" "understood G sr_forced"
  proof -
    obtain w f c where t: "sr_mode G sr_work sr_fallback sr_forced = Inr (w, f, c)"
      using sr_mode_legal [OF l u] by (metis prod_cases3)
    have "\<not> ma < 1" using m by (simp add: not_less)
    then show ?thesis by (simp add: DataSource_init_def t)
  qed
  have conv: "legal_sr_combination (sr_work \<noteq> None) (sr_fallback \<noteq> None) (sr_forced \<noteq> None)"
    if "\<exists>ds. DataSource_init G self_id sr_work sr_fallback sr_forced an ng ai ma = Inr ds"
  proof (rule ccontr)
    assume "\<not> legal_sr_combination (sr_work \<noteq> None) (sr_fallback \<noteq> None) (sr_forced \<noteq> None)"
    from illegal [OF this] that show False by simp
  qed
  show ?thesis using illegal legal conv by blast
qed

theorem DataSource_init_sr_combinations_witness:
  "\<not> legal_sr_combination (None \<noteq> (None :: string option)) (Some ''WGS84'' \<noteq> None) (None \<noteq> (None :: string option))
   \<and> DataSource_init Some 7 None (Some ''WGS84'') None True False False \<infinity> = Inl BadSrMode
   \<and> legal_sr_combination (Some ''EPSG:32632'' \<noteq> None) (Some ''WGS84'' \<noteq> None) (None \<noteq> (None :: string option))
   \<and> (1::enat) \<le> 2
   \<and> understood Some (Some ''EPSG:32632'') \<and> understood Some (Some ''WGS84'') \<and> understood Some None
   \<and> (\<exists>ds. DataSource_init Some 7 (Some ''EPSG:32632'') (Some ''WGS84'') None True False False 2 = Inr ds)"
proof -
  have a: "\<not> legal_sr_combination (None \<noteq> (None :: string option)) (Some ''WGS84'' \<noteq> None) (None \<noteq> (None :: string option))"
    by (simp add: legal_sr_combination_def)
  have b: "legal_sr_combination (Some ''EPSG:32632'' \<noteq> None) (Some ''WGS84'' \<noteq> None) (None \<noteq> (None :: string option))"
    by (simp add: legal_sr_combination_def)
  have c: "(1::enat) \<le> 2" by simp
  have d: "understood Some (Some ''EPSG:32632'')" "understood Some (Some ''WGS84'')" "understood Some None"
    by (simp_all add: understood_def)
  from a b c d
    DataSource_init_sr_combinations [of None "Some ''WGS84''" None Some 7 True False False \<infinity>]
    DataSource_init_sr_combinations [of "Some ''EPSG:32632''" "Some ''WGS84''" None Some 7 True False False 2]
  show ?thesis by blast
qed

subsection \<open>The recipe that is not cached\<close>

text \<open>
  C7. \<open>create_raster_recipe\<close> does nothing: whatever its arguments, it returns \<^verbatim>\<open>None\<close>
  and the DataSource, with its registry, is as it was.
\<close>

theorem create_raster_recipe_does_nothing:
  "fst (create_raster_recipe args ds) = None \<and> snd (create_raster_recipe args ds) = ds"
  by (simp add: create_raster_recipe_def)

subsection \<open>Closing a DataSource\<close>








subsection \<open>Arrays\<close>

lemma wf_arrayI:
  assumes "ashape a = (ny, nx, nb)" "length (adata a) = ny"
    and "\<And>row. row \<in> set (adata a) \<Longrightarrow> length row = nx"
    and "\<And>row px. row \<in> set (adata a) \<Longrightarrow> px \<in> set row \<Longrightarrow> length px = nb"
  shows "wf_array a"
  using assms by (simp add: wf_array_def list_all_iff)

lemma wf_arrayD:
  assumes "wf_array a" "ashape a = (ny, nx, nb)"
  shows "length (adata a) = ny"
    and "y < ny \<Longrightarrow> length (adata a ! y) = nx"
    and "y < ny \<Longrightarrow> x < nx \<Longrightarrow> length (adata a ! y ! x) = nb"
  using assms by (auto simp: wf_array_def list_all_length)

lemma np_full_fields:
  "ashape (np_full shp v d) = shp" "adtype (np_full shp v d) = d"
  by (cases shp; simp add: np_full_def)+

lemma np_full_wf: "wf_array (np_full shp v d)"
  by (cases shp) (auto simp: np_full_def wf_array_def list_all_iff)

lemma np_full_elements:
  assumes "row \<in> set (adata (np_full shp v d))" "px \<in> set row" "x \<in> set px"
  shows "x = dtype_cast d v"
  using assms by (cases shp) (auto simp: np_full_def)

lemma astype_fields:
  "adtype (astype d a) = d" "ashape (astype d a) = ashape a"
  by (simp_all add: astype_def)

lemma astype_wf: "wf_array a \<Longrightarrow> wf_array (astype d a)"
  by (auto simp: astype_def wf_array_def list_all_iff)

lemma astype_same: "adtype a = d \<Longrightarrow> astype d a = a"
  by (simp add: astype_def)

subsection \<open>Reading outside of the raster\<close>

text \<open>
  C2. When the requested footprint shares no area with the footprint of the raster,
  \<open>get_data\<close> returns, without touching the state, the array \<^verbatim>\<open>np.full\<close> builds: its
  shape is \<open>(fp.ry, fp.rx, len(band_ids))\<close>, its dtype is the raster's, and every element
  is \<open>dst_nodata\<close> as that dtype stores it, which is \<open>dst_nodata\<close> itself whenever the
  dtype can represent it.
\<close>

theorem get_data_outside_is_nodata:
  assumes "\<not> share_area ext f (r_fp r)"
  shows "\<exists>a. get_data ext r f band_ids dst_nodata interp st = Inr (a, st)
           \<and> a = np_full (rsizey f, rsizex f, length band_ids) dst_nodata (r_dtype r)
           \<and> ashape a = (rsizey f, rsizex f, length band_ids)
           \<and> adtype a = r_dtype r
           \<and> wf_array a
           \<and> (\<forall>row \<in> set (adata a). \<forall>px \<in> set row. \<forall>x \<in> set px.
                 x = dtype_cast (r_dtype r) dst_nodata
                 \<and> (representable (r_dtype r) dst_nodata \<longrightarrow> x = dst_nodata))"
proof -
  have "build_sampling_footprint ext (r_fp r) f interp = None"
    using assms by (simp add: build_sampling_footprint_def)
  then have "get_data ext r f band_ids dst_nodata interp st
      = Inr (np_full (rsizey f, rsizex f, length band_ids) dst_nodata (r_dtype r), st)"
    by (simp add: get_data_def shape_def)
  then show ?thesis
    using np_full_elements [of _ "(rsizey f, rsizex f, length band_ids)" dst_nodata "r_dtype r"]
    by (auto simp: np_full_fields np_full_wf representable_def)
qed

theorem get_data_outside_is_nodata_witness:
  "\<not> share_area example_ext (example_fp\<lparr>tlx := 10\<rparr>) (r_fp example_raster)
   \<and> (\<exists>a. get_data example_ext example_raster (example_fp\<lparr>tlx := 10\<rparr>) [IntId 1, IntId 2] 255 Nearest
             example_state = Inr (a, example_state)
           \<and> a = np_full (rsizey (example_fp\<lparr>tlx := 10\<rparr>), rsizex (example_fp\<lparr>tlx := 10\<rparr>),
                    length [IntId 1, IntId 2]) 255 (r_dtype example_raster)
           \<and> ashape a = (rsizey (example_fp\<lparr>tlx := 10\<rparr>), rsizex (example_fp\<lparr>tlx := 10\<rparr>),
                    length [IntId 1, IntId 2])
           \<and> adtype a = r_dtype example_raster
           \<and> wf_array a
           \<and> (\<forall>row \<in> set (adata a). \<forall>px \<in> set row. \<forall>x \<in> set px.
                 x = dtype_cast (r_dtype example_raster) 255
                 \<and> (representable (r_dtype example_raster) 255 \<longrightarrow> x = 255)))"
proof -
  have "\<not> share_area example_ext (example_fp\<lparr>tlx := 10\<rparr>) (r_fp example_raster)"
    by (simp add: share_area_def same_grid_def overlap_x_def example_fp_def example_raster_def)
  then show ?thesis
    using get_data_outside_is_nodata [of example_ext "example_fp\<lparr>tlx := 10\<rparr>" example_raster
        "[IntId 1, IntId 2]" 255 Nearest example_state]
    by blast
qed

subsection \<open>Writing outside of the raster\<close>

text \<open>
  C9. When the footprint shares no area with the footprint of the raster, \<open>set_data\<close>
  returns at once: the state it returns is the state it was given, so the file is as
  it was, and the activation pool and its count of leases are as they were: no driver
  object was acquired.
\<close>

theorem set_data_outside_changes_nothing:
  assumes "\<not> share_area ext f (r_fp r)"
  shows "set_data ext r array f band_ids interp m st = Inr st"
  using assms by (simp add: set_data_def)

theorem set_data_outside_changes_nothing_witness:
  "\<not> share_area example_ext (example_fp\<lparr>tly := - 3\<rparr>) (r_fp example_raster)
   \<and> set_data example_ext example_raster (np_full (3, 4, 1) 9 UInt8) (example_fp\<lparr>tly := - 3\<rparr>)
        [IntId 1] Nearest None example_state = Inr example_state"
proof -
  have "\<not> share_area example_ext (example_fp\<lparr>tly := - 3\<rparr>) (r_fp example_raster)"
    by (simp add: share_area_def same_grid_def overlap_y_def example_fp_def example_raster_def)
  then show ?thesis
    using set_data_outside_changes_nothing [of example_ext "example_fp\<lparr>tly := - 3\<rparr>"
        example_raster "np_full (3, 4, 1) 9 UInt8" "[IntId 1]" Nearest None example_state]
    by blast
qed

subsection \<open>Shape and dtype of what is read\<close>

lemma bind_eq_Inr: "bind m g = Inr y \<longleftrightarrow> (\<exists>x. m = Inr x \<and> g x = Inr y)"
  by (cases m) simp_all

lemma read_bands_length:
  "read_bands gdal_ds x y w h ids = Inr planes \<Longrightarrow> length planes = length ids"
proof (induction ids arbitrary: planes)
  case Nil
  then show ?case by simp
next
  case (Cons b ids)
  then show ?case
    by (auto simp: bind_eq_Inr split: option.splits)
qed

lemma dstarray_of_fields:
  "adtype (dstarray_of shp d planes) = d"
  "ashape (dstarray_of shp d planes) = (fst shp, snd shp, length planes)"
  by (simp_all add: dstarray_of_def)

lemma dstarray_of_wf: "wf_array (dstarray_of shp d planes)"
  by (rule wf_arrayI [where ny = "fst shp" and nx = "snd shp" and nb = "length planes"])
     (auto simp: dstarray_of_def)

lemma get_data_driver_shape:
  assumes "get_data_driver r f band_ids gdal_ds = Inr a"
  shows "adtype a = r_dtype r \<and> ashape a = (rsizey f, rsizex f, length band_ids) \<and> wf_array a"
proof -
  obtain planes where p: "read_bands gdal_ds (tlx f - tlx (r_fp r)) (tly f - tly (r_fp r))
        (rsizex f) (rsizey f) band_ids = Inr planes"
    and a: "a = dstarray_of (shape f) (r_dtype r) planes"
    using assms
    by (auto simp: get_data_driver_def spatial_to_raster_def tl_point_def bind_eq_Inr
        split: if_splits)
  show ?thesis
    using read_bands_length [OF p]
    by (simp add: a dstarray_of_fields dstarray_of_wf shape_def)
qed

lemma sample_shape:
  assumes "sample r f band_ids st = Inr (a, st')"
  shows "adtype a = r_dtype r \<and> ashape a = (rsizey f, rsizex f, length band_ids) \<and> wf_array a"
  using assms get_data_driver_shape [of r f band_ids _ a]
  by (auto simp: sample_def Let_def bind_eq_Inr split: if_splits)

lemma remap_slice_shape:
  assumes "wf_array array" "ashape array = (rsizey src_fp, rsizex src_fp, nb)"
  shows "ashape (fst (remap_slice src_fp dst_fp array m v)) = (rsizey dst_fp, rsizex dst_fp, nb)
         \<and> wf_array (fst (remap_slice src_fp dst_fp array m v))"
proof -
  let ?a = "fst (remap_slice src_fp dst_fp array m v)"
  have sh: "ashape ?a = (rsizey dst_fp, rsizex dst_fp, nb)"
    using assms(2) by (simp add: remap_slice_def Let_def)
  have px: "length (adata array ! nat (tly dst_fp + int y - tly src_fp)
                     ! nat (tlx dst_fp + int x - tlx src_fp)) = nb"
    if "covers src_fp (tlx dst_fp + int x, tly dst_fp + int y)" for x y
  proof -
    have "nat (tly dst_fp + int y - tly src_fp) < rsizey src_fp"
      and "nat (tlx dst_fp + int x - tlx src_fp) < rsizex src_fp"
      using that by (auto simp: covers_def)
    then show ?thesis using wf_arrayD(3) [OF assms] by blast
  qed
  have "wf_array ?a"
  proof (rule wf_arrayI [OF sh])
    show "length (adata ?a) = rsizey dst_fp"
      by (simp add: remap_slice_def Let_def)
    show "length row = rsizex dst_fp" if "row \<in> set (adata ?a)" for row
      using that by (auto simp: remap_slice_def Let_def)
    show "length p = nb" if "row \<in> set (adata ?a)" "p \<in> set row" for row p
      using that px assms(2) by (auto simp: remap_slice_def Let_def split: if_splits)
  qed
  with sh show ?thesis by simp
qed

lemma remap_interpolate_shape:
  assumes "ashape array = (ny, nx, nb)"
  shows "ashape (fst (remap_interpolate ext src_fp dst_fp array m sn v mm interp))
           = (rsizey dst_fp, rsizex dst_fp, nb)
         \<and> wf_array (fst (remap_interpolate ext src_fp dst_fp array m sn v mm interp))"
proof -
  let ?a = "fst (remap_interpolate ext src_fp dst_fp array m sn v mm interp)"
  obtain d value_at valid_at
    where x: "x_resample ext interp mm src_fp dst_fp array m sn v = (d, value_at, valid_at)"
    by (metis prod_cases3)
  have sh: "ashape ?a = (rsizey dst_fp, rsizex dst_fp, nb)"
    using assms by (simp add: remap_interpolate_def x)
  have "wf_array ?a"
    by (rule wf_arrayI [OF sh]) (auto simp: remap_interpolate_def x assms)
  with sh show ?thesis by simp
qed

lemma remap_shape:
  assumes "remap ext src_fp dst_fp array m sn v mm interp = Inr (a, m')"
    and "wf_array array" "ashape array = (ny, nx, nb)"
  shows "ashape a = (rsizey dst_fp, rsizex dst_fp, nb) \<and> wf_array a"
proof -
  have s: "ashape array = (rsizey src_fp, rsizex src_fp, nb)"
    using assms(1,3) by (auto simp: remap_def shape_def split: if_splits)
  show ?thesis
  proof (cases "same_grid src_fp dst_fp")
    case True
    then have "a = fst (remap_slice src_fp dst_fp array m v)"
      using assms(1) by (auto simp: remap_def split: if_splits)
    then show ?thesis using remap_slice_shape [OF assms(2) s] by simp
  next
    case False
    then have "a = fst (remap_interpolate ext src_fp dst_fp array m sn v mm interp)"
      using assms(1) by (auto simp: remap_def split: if_splits)
    then show ?thesis using remap_interpolate_shape [OF s] by simp
  qed
qed

text \<open>
  C10. Whenever \<open>get_data\<close> returns, on the path without intersection and on the path
  that samples the file alike, the array it returns has the dtype of the raster and the
  shape \<open>(fp.ry, fp.rx, len(band_ids))\<close>, and it holds as many elements as this shape
  says. On the sampling path the dtype is that of the raster because the remapped array
  goes through \<open>astype\<close> last.
\<close>

theorem get_data_dtype_and_shape:
  assumes "get_data ext r f band_ids dst_nodata interp st = Inr (a, st')"
  shows "adtype a = r_dtype r
         \<and> ashape a = (rsizey f, rsizex f, length band_ids)
         \<and> wf_array a"
proof (cases "build_sampling_footprint ext (r_fp r) f interp")
  case None
  then have "a = np_full (rsizey f, rsizex f, length band_ids) dst_nodata (r_dtype r)"
    using assms by (simp add: get_data_def shape_def)
  then show ?thesis by (simp add: np_full_fields np_full_wf)
next
  case (Some samplefp)
  then obtain array st1 array' m
    where s: "sample r samplefp band_ids st = Inr (array, st1)"
      and rm: "remap ext samplefp f array None (r_nodata r) dst_nodata Erode interp = Inr (array', m)"
      and a: "a = astype (r_dtype r) array'"
    using assms by (auto simp: get_data_def bind_eq_Inr)
  from sample_shape [OF s]
  have "wf_array array" "ashape array = (rsizey samplefp, rsizex samplefp, length band_ids)"
    by simp_all
  from remap_shape [OF rm this]
  show ?thesis by (simp add: a astype_fields astype_wf)
qed


theorem get_data_dtype_and_shape_witness:
  "\<exists>a st'. get_data example_ext example_raster \<lparr>grid = 1, tlx = 0, tly = 0, rsizex = 2, rsizey = 2\<rparr>
        [IntId 1] 0 Bilinear example_state = Inr (a, st')
     \<and> adtype a = r_dtype example_raster
     \<and> ashape a = (rsizey \<lparr>grid = 1, tlx = 0, tly = 0, rsizex = 2, rsizey = 2\<rparr>,
                   rsizex \<lparr>grid = 1, tlx = 0, tly = 0, rsizex = 2, rsizey = 2\<rparr>, length [IntId 1])
     \<and> wf_array a
     \<and> adata a = [[[44], [44]], [[44], [44]]]"
proof -
  let ?g = "get_data example_ext example_raster \<lparr>grid = 1, tlx = 0, tly = 0, rsizex = 2, rsizey = 2\<rparr>
        [IntId 1] 0 Bilinear example_state"
  have e: "map_sum id (\<lambda>(a, st). adata a) ?g = Inr [[[44], [44]], [[44], [44]]]"
    by code_simp
  then obtain a st' where g: "?g = Inr (a, st')" and d: "adata a = [[[44], [44]], [[44], [44]]]"
    by (cases ?g) auto
  from get_data_dtype_and_shape [OF g] d g show ?thesis by blast
qed

subsection \<open>Activation of all the pooled sources\<close>

lemma window_covers:
  assumes "t < n"
  shows "\<exists>j. a \<le> j \<and> j < a + n \<and> j mod n = (t::nat)"
proof (induction a)
  case 0
  then show ?case using assms by (intro exI [of _ t]) simp
next
  case (Suc a)
  then obtain j where j: "a \<le> j" "j < a + n" "j mod n = t" by blast
  show ?case
  proof (cases "j = a")
    case True
    then show ?thesis using j by (intro exI [of _ "j + n"]) simp
  next
    case False
    then show ?thesis using j by (intro exI [of _ j]) simp
  qed
qed

lemma suffix_not_full:
  assumes "distinct ts" "set ts \<subseteq> uid ` set proxs" "u \<in> uid ` set proxs" "u \<notin> set ts"
  shows "length ts < length proxs"
proof -
  have "card (insert u (set ts)) \<le> card (uid ` set proxs)"
    using assms(2,3) by (intro card_mono) auto
  also have "\<dots> \<le> length proxs"
    by (meson card_image_le card_length le_trans List.finite_set)
  finally show ?thesis
    using assms(1,4) by (simp add: distinct_card)
qed

lemma activate_fields:
  "max_active (activate u b) = max_active b"
  "(activate u b)\<lparr>ap_active := xs\<rparr> = b\<lparr>ap_active := xs\<rparr>"
  by (simp_all add: activate_def ensure_one_slot_def Let_def)

lemma activate_cycle_total:
  assumes ne: "proxs \<noteq> []"
  shows "\<lbrakk>enat (length proxs) \<le> max_active b; ap_active b = rest @ ts; distinct ts;
          set ts \<subseteq> uid ` set proxs; i \<le> length proxs; i \<le> k;
          \<forall>j. k - i \<le> j \<and> j < k \<longrightarrow> is_active b (uid (proxs ! (j mod length proxs)))\<rbrakk>
         \<Longrightarrow> \<exists>b'. activate_cycle proxs (length proxs) k i b = Some b'
                \<and> (\<forall>p \<in> set proxs. is_active b' (uid p))
                \<and> b' = b\<lparr>ap_active := ap_active b'\<rparr>"
proof (induction "(length proxs - length ts) * (length proxs + 1) + (length proxs - i)"
    arbitrary: k i b rest ts rule: less_induct)
  case less
  let ?n = "length proxs"
  have npos: "0 < ?n" using ne by simp
  show ?case
  proof (cases "i = ?n")
    case True
    have "is_active b (uid p)" if pin: "p \<in> set proxs" for p
    proof -
      obtain t where t: "t < ?n" "p = proxs ! t"
        using pin by (auto simp: in_set_conv_nth)
      obtain j where j: "k - ?n \<le> j" "j < k - ?n + ?n" "j mod ?n = t"
        using window_covers [OF t(1)] by blast
      have "j < k" using j(2) less.prems(6) True by simp
      then show ?thesis using less.prems(7) j True t by auto
    qed
    then show ?thesis
      using True ne by (subst activate_cycle.simps) simp
  next
    case False
    then have ilt: "i < ?n" using less.prems(5) by simp
    let ?u = "uid (proxs ! (k mod ?n))"
    have uin: "?u \<in> uid ` set proxs"
      using npos by simp
    show ?thesis
    proof (cases "is_active b ?u")
      case True
      have w: "\<forall>j. Suc k - Suc i \<le> j \<and> j < Suc k
                 \<longrightarrow> is_active b (uid (proxs ! (j mod ?n)))"
        using less.prems(7) True by (auto simp: less_Suc_eq)
      have m: "(?n - length ts) * (?n + 1) + (?n - Suc i) < (?n - length ts) * (?n + 1) + (?n - i)"
        using ilt by simp
      have "\<exists>b'. activate_cycle proxs ?n (Suc k) (Suc i) b = Some b'
                \<and> (\<forall>p \<in> set proxs. is_active b' (uid p))
                \<and> b' = b\<lparr>ap_active := ap_active b'\<rparr>"
        using less.hyps [OF m less.prems(1-4) _ _ w] ilt less.prems(6) by simp
      then show ?thesis
        using True False ne by (subst activate_cycle.simps) simp
    next
      case inactive: False
      then have unot: "?u \<notin> set ts"
        using less.prems(2) by (simp add: is_active_def)
      have tslt: "length ts < ?n"
        using suffix_not_full [OF less.prems(3,4) uin unot] .
      define b1 where "b1 = activate ?u b"
      define rest' where
        "rest' = (if enat (length (ap_active b)) = max_active b then tl rest else rest)"
      have restne: "rest \<noteq> []" if "enat (length (ap_active b)) = max_active b"
      proof
        assume "rest = []"
        then have "enat (length ts) = max_active b"
          using that less.prems(2) by simp
        then have "enat ?n \<le> enat (length ts)" using less.prems(1) by simp
        then show False using tslt by simp
      qed
      have act: "ap_active b1 = rest' @ (ts @ [?u])"
        using inactive restne less.prems(2)
        by (auto simp: b1_def rest'_def activate_def ensure_one_slot_def Let_def)
      have d: "distinct (ts @ [?u])" using less.prems(3) unot by simp
      have s: "set (ts @ [?u]) \<subseteq> uid ` set proxs" using less.prems(4) uin by simp
      have mx: "enat ?n \<le> max_active b1"
        using less.prems(1) by (simp add: b1_def activate_fields)
      have w: "\<forall>j. Suc k - 1 \<le> j \<and> j < Suc k \<longrightarrow> is_active b1 (uid (proxs ! (j mod ?n)))"
      proof (intro allI impI)
        fix j assume "Suc k - 1 \<le> j \<and> j < Suc k"
        then have "j = k" by simp
        then show "is_active b1 (uid (proxs ! (j mod ?n)))"
          by (simp add: is_active_def act)
      qed
      have m: "(?n - length (ts @ [?u])) * (?n + 1) + (?n - 1)
               < (?n - length ts) * (?n + 1) + (?n - i)"
      proof -
        have "?n - length ts = Suc (?n - length (ts @ [?u]))"
          using tslt by simp
        then show ?thesis by simp
      qed
      have one: "1 \<le> ?n" "1 \<le> Suc k" using ne by (simp_all add: Suc_le_eq)
      obtain b' where b': "activate_cycle proxs ?n (Suc k) 1 b1 = Some b'"
        "\<forall>p \<in> set proxs. is_active b' (uid p)" "b' = b1\<lparr>ap_active := ap_active b'\<rparr>"
        using less.hyps [OF m mx act d s one w] by blast
      have "b' = b\<lparr>ap_active := ap_active b'\<rparr>"
        using b'(3) by (simp add: b1_def activate_fields)
      then show ?thesis
        using inactive False ne b' by (subst activate_cycle.simps) (simp add: b1_def)
    qed
  qed
qed


text \<open>
  C6. \<open>activate_all\<close> fails with \<open>TooMany\<close> when there are more pooled sources in the
  registry than \<open>max_active\<close>. Otherwise its loop ends, whatever the activation pool
  held before, and when it returns every pooled source of the registry is active;
  nothing but the activation pool has changed.
\<close>

theorem activate_all_contract:
  "(max_active (ds_back ds) < enat (length (pooled_proxies ds))
      \<longrightarrow> activate_all ds = Some (Inl TooMany))
   \<and> (\<not> max_active (ds_back ds) < enat (length (pooled_proxies ds))
      \<longrightarrow> (\<exists>ds'. activate_all ds = Some (Inr ds')
             \<and> (\<forall>p \<in> set (pooled_proxies ds'). is_active (ds_back ds') (uid p))
             \<and> keys_of_proxy ds' = keys_of_proxy ds
             \<and> ds' = ds\<lparr>ds_back := (ds_back ds)\<lparr>ap_active := ap_active (ds_back ds')\<rparr>\<rparr>))"
proof (intro conjI impI)
  assume "max_active (ds_back ds) < enat (length (pooled_proxies ds))"
  then show "activate_all ds = Some (Inl TooMany)"
    by (simp add: activate_all_def Let_def)
next
  let ?proxs = "pooled_proxies ds"
  let ?b = "ds_back ds"
  assume fits: "\<not> max_active ?b < enat (length ?proxs)"
  have "\<exists>b'. activate_cycle ?proxs (length ?proxs) 0 0 ?b = Some b'
          \<and> (\<forall>p \<in> set ?proxs. is_active b' (uid p))
          \<and> b' = ?b\<lparr>ap_active := ap_active b'\<rparr>"
  proof (cases "?proxs = []")
    case True
    then show ?thesis by (subst activate_cycle.simps) simp
  next
    case False
    have "enat (length ?proxs) \<le> max_active ?b" using fits by (simp add: not_less)
    from activate_cycle_total [OF False this, of "ap_active ?b" "[]" 0 0]
    show ?thesis by simp
  qed
  then obtain b' where b': "activate_cycle ?proxs (length ?proxs) 0 0 ?b = Some b'"
    "\<forall>p \<in> set ?proxs. is_active b' (uid p)" "b' = ?b\<lparr>ap_active := ap_active b'\<rparr>"
    by blast
  have "activate_all ds = Some (Inr (ds\<lparr>ds_back := b'\<rparr>))"
    using fits b'(1) by (simp add: activate_all_def Let_def)
  moreover have "pooled_proxies (ds\<lparr>ds_back := b'\<rparr>) = ?proxs"
    by (simp add: pooled_proxies_def)
  ultimately show "\<exists>ds'. activate_all ds = Some (Inr ds')
             \<and> (\<forall>p \<in> set (pooled_proxies ds'). is_active (ds_back ds') (uid p))
             \<and> keys_of_proxy ds' = keys_of_proxy ds
             \<and> ds' = ds\<lparr>ds_back := (ds_back ds)\<lparr>ap_active := ap_active (ds_back ds')\<rparr>\<rparr>"
    using b'(2,3) by (intro exI [of _ "ds\<lparr>ds_back := b'\<rparr>"]) simp
qed

theorem activate_all_contract_witness:
  "max_active (ds_back (example_ds\<lparr>ds_back := example_back\<lparr>max_active := 1\<rparr>\<rparr>))
      < enat (length (pooled_proxies (example_ds\<lparr>ds_back := example_back\<lparr>max_active := 1\<rparr>\<rparr>)))
   \<and> activate_all (example_ds\<lparr>ds_back := example_back\<lparr>max_active := 1\<rparr>\<rparr>) = Some (Inl TooMany)
   \<and> \<not> max_active (ds_back example_ds) < enat (length (pooled_proxies example_ds))
   \<and> (\<exists>ds'. activate_all example_ds = Some (Inr ds')
         \<and> (\<forall>p \<in> set (pooled_proxies ds'). is_active (ds_back ds') (uid p))
         \<and> keys_of_proxy ds' = keys_of_proxy example_ds
         \<and> ds' = example_ds\<lparr>ds_back := (ds_back example_ds)\<lparr>ap_active := ap_active (ds_back ds')\<rparr>\<rparr>
         \<and> ap_active (ds_back ds') = [3, 1])"
proof -
  let ?small = "example_ds\<lparr>ds_back := example_back\<lparr>max_active := 1\<rparr>\<rparr>"
  have a: "max_active (ds_back ?small) < enat (length (pooled_proxies ?small))"
    by (simp add: example_ds_def pooled_proxies_def one_enat_def)
  have b: "\<not> max_active (ds_back example_ds) < enat (length (pooled_proxies example_ds))"
    by (simp add: example_ds_def example_back_def pooled_proxies_def numeral_eq_enat)
  have c: "map_option (map_sum id (\<lambda>ds'. ap_active (ds_back ds'))) (activate_all example_ds)
            = Some (Inr [3, 1])"
    apply (simp add: activate_all_def example_ds_def example_back_def pooled_proxies_def
        numeral_eq_enat)
    apply (subst activate_cycle.simps)
    apply (simp add: is_active_def activate_def ensure_one_slot_def numeral_eq_enat)
    apply (subst activate_cycle.simps)
    apply (simp add: is_active_def)
    apply (subst activate_cycle.simps)
    apply simp
    done
  from activate_all_contract [of ?small] a
  have "activate_all ?small = Some (Inl TooMany)" by blast
  moreover from activate_all_contract [of example_ds] b c
  have "\<exists>ds'. activate_all example_ds = Some (Inr ds')
         \<and> (\<forall>p \<in> set (pooled_proxies ds'). is_active (ds_back ds') (uid p))
         \<and> keys_of_proxy ds' = keys_of_proxy example_ds
         \<and> ds' = example_ds\<lparr>ds_back := (ds_back example_ds)\<lparr>ap_active := ap_active (ds_back ds')\<rparr>\<rparr>
         \<and> ap_active (ds_back ds') = [3, 1]"
    by auto
  ultimately show ?thesis using a b by blast
qed

subsection \<open>The tilings of a cached recipe\<close>

lemma exact_cover_is_covering:
  "is_tiling_covering_fp tiling f False False \<Longrightarrow> is_tiling_covering_fp tiling f True True"
  by (simp add: is_tiling_covering_fp_def Let_def)

lemma create_cached_raster_recipe_after_parameters:
  assumes "parameters_before_tilings rx ds args = Inr ((f, band_schema, sr), compute_array, prims, pools)"
  shows "create_cached_raster_recipe rx args ds =
     bind (check_tilings f args) (\<lambda>(cache_tiles, computation_tiles).
     bind (check_misc args) (\<lambda>(max_resampling_size, cache_dir, overwrite).
       let prox = \<lparr>cr_uid = rx_uuid4 rx, cr_fp = f, cr_dtype = a_dtype args,
                   cr_band_count = a_band_count args, cr_band_schema = band_schema, cr_sr = sr,
                   cr_compute_array = compute_array, cr_merge_arrays = a_merge_arrays args,
                   cr_cache_dir = cache_dir, cr_overwrite = overwrite,
                   cr_primitives = fst prims, cr_convert_footprint_per_primitive = snd prims,
                   cr_pools = pools,
                   cr_cache_tiles = cache_tiles, cr_computation_tiles = computation_tiles,
                   cr_max_resampling_size = max_resampling_size\<rparr>
       in Inr (prox, register [a_key args] \<lparr>uid = cr_uid prox, pooled = False\<rparr> ds)))"
  using assms by (cases prims) (simp add: create_cached_raster_recipe_def)


lemma created_when_checks_pass:
  assumes "parameters_before_tilings rx ds args = Inr ((f, band_schema, sr), compute_array, prims, pools)"
    and "check_tilings f args = Inr (cache_tiles, computation_tiles)"
    and "check_misc args = Inr misc"
  shows "\<exists>prox ds'. create_cached_raster_recipe rx args ds = Inr (prox, ds')
           \<and> cr_fp prox = f
           \<and> cr_cache_tiles prox = cache_tiles \<and> cr_computation_tiles prox = computation_tiles"
  unfolding create_cached_raster_recipe_after_parameters [OF assms(1)]
  using assms(2,3) by (cases misc) (simp add: Let_def)




text \<open>
  C8. Let the checks before the tilings pass, let the cache tiles be an exact cover of
  the footprint without overlap, and let \<open>computation_tiles\<close> be an array of footprints,
  any array. The test of that branch reads the cache tiles, which pass it, so the
  tilings are accepted as they are: construction does not fail with \<open>BadTiling\<close>, and
  when the remaining checks pass the recipe is constructed with this array as its
  computation tiles.
\<close>

theorem computation_tiles_array_accepted:
  assumes "parameters_before_tilings rx ds args = Inr ((f, band_schema, sr), compute_array, prims, pools)"
    and "check_cache_tiles f (a_cache_tiles args) = Inr cache_tiles"
    and "is_tiling_covering_fp cache_tiles f False False"
    and "a_computation_tiles args = Some (ObjectArray computation_tiles)"
  shows "check_tilings f args = Inr (cache_tiles, computation_tiles)
       \<and> (\<forall>which. create_cached_raster_recipe rx args ds \<noteq> Inl (BadTiling which))
       \<and> (\<forall>misc. check_misc args = Inr misc
            \<longrightarrow> (\<exists>prox ds'. create_cached_raster_recipe rx args ds = Inr (prox, ds')
                   \<and> cr_cache_tiles prox = cache_tiles
                   \<and> cr_computation_tiles prox = computation_tiles))"
proof -
  have t: "check_tilings f args = Inr (cache_tiles, computation_tiles)"
    using assms(2,4) exact_cover_is_covering [OF assms(3)]
    by (simp add: check_tilings_def check_computation_tiles_def)
  have "create_cached_raster_recipe rx args ds \<noteq> Inl (BadTiling which)" for which
    unfolding create_cached_raster_recipe_after_parameters [OF assms(1)] t
    by (cases "check_misc args")
       (auto simp: check_misc_def Let_def split: if_splits cache_dir_param.splits)
  moreover have "\<exists>prox ds'. create_cached_raster_recipe rx args ds = Inr (prox, ds')
                   \<and> cr_cache_tiles prox = cache_tiles
                   \<and> cr_computation_tiles prox = computation_tiles"
    if "check_misc args = Inr misc" for misc
    using created_when_checks_pass [OF assms(1) t that] by blast
  ultimately show ?thesis using t by blast
qed

theorem computation_tiles_array_accepted_witness:
  "parameters_before_tilings example_rx example_ds example_cached_args
     = Inr ((example_fp, 0, None), Callable 0, ([], []), (Some 0, Some 0, Some 0, Some 0))
   \<and> check_cache_tiles example_fp (a_cache_tiles example_cached_args) = Inr example_halves
   \<and> is_tiling_covering_fp example_halves example_fp False False
   \<and> a_computation_tiles example_cached_args = Some (ObjectArray example_pixel)
   \<and> \<not> is_tiling_covering_fp example_pixel example_fp True True
   \<and> check_tilings example_fp example_cached_args = Inr (example_halves, example_pixel)
   \<and> (\<exists>prox ds'. create_cached_raster_recipe example_rx example_cached_args example_ds
                     = Inr (prox, ds')
          \<and> cr_cache_tiles prox = example_halves
          \<and> cr_computation_tiles prox = example_pixel)"
proof -
  have p: "parameters_before_tilings example_rx example_ds example_cached_args
     = Inr ((example_fp, 0, None), Callable 0, ([], []), (Some 0, Some 0, Some 0, Some 0))"
    by code_simp
  have c: "check_cache_tiles example_fp (a_cache_tiles example_cached_args) = Inr example_halves"
    by code_simp
  have e: "is_tiling_covering_fp example_halves example_fp False False"
    by code_simp
  have a: "a_computation_tiles example_cached_args = Some (ObjectArray example_pixel)"
    by (simp add: example_cached_args_def)
  have n: "\<not> is_tiling_covering_fp example_pixel example_fp True True"
    by code_simp
  have m: "check_misc example_cached_args = Inr (None, ''cache'', False)"
    by code_simp
  from computation_tiles_array_accepted [OF p c e a] m p c e a n
  show ?thesis by blast
qed

subsection \<open>Writing and reading back\<close>

lemma map_upt_nth:
  assumes "length xs = n" "\<And>i. i < n \<Longrightarrow> g i = xs ! i"
  shows "map g [0..<n] = xs"
  using assms by (auto intro: nth_equalityI)

lemma remap_same_footprint:
  assumes "wf_array a" "ashape a = (rsizey f, rsizex f, nb)"
  shows "remap ext f f a None sn v mm interp = Inr (a, None)"
proof -
  have inside: "covers f (tlx f + int x, tly f + int y)" if "x < rsizex f" "y < rsizey f" for x y
    using that by (simp add: covers_def)
  have rows: "map (\<lambda>x. if covers f (tlx f + int x, tly f + int y)
                        then adata a ! y ! x
                        else replicate nb (dtype_cast (adtype a) v)) [0..<rsizex f]
              = adata a ! y" if y: "y < rsizey f" for y
  proof (rule map_upt_nth)
    show "length (adata a ! y) = rsizex f"
      using wf_arrayD(2) [OF assms y] .
  next
    fix x assume "x < rsizex f"
    then show "(if covers f (tlx f + int x, tly f + int y)
                then adata a ! y ! x
                else replicate nb (dtype_cast (adtype a) v)) = adata a ! y ! x"
      using inside y by simp
  qed
  have data: "map (\<lambda>y. map (\<lambda>x. if covers f (tlx f + int x, tly f + int y)
                        then adata a ! y ! x
                        else replicate nb (dtype_cast (adtype a) v)) [0..<rsizex f]) [0..<rsizey f]
              = adata a"
    by (rule map_upt_nth) (simp_all add: wf_arrayD(1) [OF assms] rows)
  have "remap_slice f f a None v
          = (\<lparr>adtype = adtype a, ashape = ashape a, adata = adata a\<rparr>, None)"
    by (simp add: remap_slice_def Let_def assms(2) data)
  then have "remap_slice f f a None v = (a, None)"
    by simp
  then show ?thesis
    using assms(2) by (simp add: remap_def shape_def same_grid_def)
qed

lemma contained_share_area:
  assumes "contained_in f outer" "valid_footprint f"
  shows "share_area ext f outer" "share_area ext outer f"
  using assms
  by (auto simp: contained_in_def valid_footprint_def share_area_def same_grid_def
      overlap_x_def overlap_y_def)

lemma contained_intersection:
  assumes "contained_in f outer" "valid_footprint f"
  shows "intersection ext outer f = Inr f" "intersection ext f outer = Inr f"
proof -
  have g: "grid outer = grid f" "same_grid outer f" "same_grid f outer"
    using assms(1) by (simp_all add: contained_in_def same_grid_def)
  have ox: "overlap_x outer f = int (rsizex f)" "overlap_x f outer = int (rsizex f)"
    using assms(1) by (auto simp: contained_in_def overlap_x_def)
  have oy: "overlap_y outer f = int (rsizey f)" "overlap_y f outer = int (rsizey f)"
    using assms(1) by (auto simp: contained_in_def overlap_y_def)
  have mx: "max (tlx outer) (tlx f) = tlx f" "max (tlx f) (tlx outer) = tlx f"
    "max (tly outer) (tly f) = tly f" "max (tly f) (tly outer) = tly f"
    using assms(1) by (auto simp: contained_in_def)
  show "intersection ext outer f = Inr f"
    using contained_share_area [OF assms, of ext] g
    by (simp add: intersection_def ox oy mx)
  show "intersection ext f outer = Inr f"
    using contained_share_area [OF assms, of ext] g
    by (simp add: intersection_def ox oy mx)
qed


lemma gdalband_of_band_id_cong:
  assumes "RasterCount d' = RasterCount d" "mask_flags d' = mask_flags d"
  shows "gdalband_of_band_id d' ident = gdalband_of_band_id d ident"
  using assms
  by (simp add: gdalband_of_band_id_def GetRasterBand_def GetMaskBand_def split: band_id.splits)

lemma WriteArray_fields:
  "RasterCount (WriteArray d b pl shp x y) = RasterCount d"
  "RasterXSize (WriteArray d b pl shp x y) = RasterXSize d"
  "RasterYSize (WriteArray d b pl shp x y) = RasterYSize d"
  "mask_flags (WriteArray d b pl shp x y) = mask_flags d"
  by (cases shp; cases b; simp add: WriteArray_def)+

lemma WriteArray_other_band:
  "n' \<noteq> n \<Longrightarrow> band_data (WriteArray d (RasterBand n) pl shp x y) n' = band_data d n'"
  by (cases shp) (simp add: WriteArray_def)

lemma WriteArray_band:
  assumes "0 \<le> x" "0 \<le> y" "x + int w \<le> int (RasterXSize d)" "y + int h \<le> int (RasterYSize d)"
  shows "band_data (WriteArray d (RasterBand n) pl (h, w) x y) n row col
         = (if nat y \<le> row \<and> row < nat y + h \<and> nat x \<le> col \<and> col < nat x + w
            then pl ! (row - nat y) ! (col - nat x)
            else band_data d n row col)"
  using assms by (simp add: WriteArray_def)

lemma slice_list_full: "slice_list (0, None) xs = xs"
  by (simp add: slice_list_def slice_stop_def)

lemma slice_matrix_full: "slice_matrix ((0, None), (0, None)) m = m"
proof -
  have "slice_list (0, None) = (\<lambda>xs :: 'a list. xs)"
    by (rule ext) (rule slice_list_full)
  then show ?thesis
    by (simp add: slice_matrix_def slice_list_full)
qed

lemma slice_len_full: "slice_len (0, None) n = n"
  by (simp add: slice_len_def slice_stop_def)

text \<open>Without a mask, the band \<open>i\<close> of the array is written in one piece.\<close>

lemma write_slices_whole:
  assumes "ashape a = (ry, rx, nb)" "i < nb"
    and "0 \<le> x0" "0 \<le> y0"
    and "x0 + int rx \<le> int (rsizex (r_fp r))" "y0 + int ry \<le> int (rsizey (r_fp r))"
  shows "write_slices r b a i x0 y0 (slices_of_matrix ext None) d
         = Inr (WriteArray d b (map (map (\<lambda>px. px ! i)) (adata a)) (ry, rx) x0 y0)"
  using assms
  by (simp add: slices_of_matrix_def band_plane_def slice_matrix_full slice_len_full Let_def)


lemma plane_nth:
  assumes "wf_array a" "ashape a = (ry, rx, nb)" "y < ry" "x < rx"
  shows "map (map (\<lambda>px. px ! i)) (adata a) ! y ! x = adata a ! y ! x ! i"
  using wf_arrayD(1,2) [OF assms(1,2)] assms(3,4) by simp

text \<open>
  The loop over the bands: when the identifiers name raster bands that differ from each
  other, each of these bands holds its plane of the array in the window afterwards, and
  is as before outside of the window; the other raster bands are as before.
\<close>

lemma write_bands_whole:
  assumes wf: "wf_array a" "ashape a = (ry, rx, nb)"
    and pos: "0 \<le> x0" "0 \<le> y0"
    and fits: "x0 + int rx \<le> int (rsizex (r_fp r))" "y0 + int ry \<le> int (rsizey (r_fp r))"
    and off: "spatial_to_raster (r_fp r) (tl_point f) = (x0, y0)"
  shows "\<lbrakk>file_of_raster r d;
          map (gdalband_of_band_id d) ids = map (\<lambda>m. Inr (RasterBand m)) ns; distinct ns;
          n + length ids \<le> nb\<rbrakk>
     \<Longrightarrow> \<exists>d'. write_bands ext r a f None (List.enumerate n ids) d = Inr d'
          \<and> RasterCount d' = RasterCount d \<and> RasterXSize d' = RasterXSize d
          \<and> RasterYSize d' = RasterYSize d \<and> mask_flags d' = mask_flags d
          \<and> (\<forall>j<length ids. \<forall>row col. band_data d' (ns ! j) row col
                = (if nat y0 \<le> row \<and> row < nat y0 + ry \<and> nat x0 \<le> col \<and> col < nat x0 + rx
                   then adata a ! (row - nat y0) ! (col - nat x0) ! (n + j)
                   else band_data d (ns ! j) row col))
          \<and> (\<forall>m. m \<notin> set ns \<longrightarrow> band_data d' m = band_data d m)"
proof (induction ids arbitrary: n d ns)
  case Nil
  then show ?case by simp
next
  case (Cons ident ids)
  from Cons.prems(2) obtain b ns' where ns: "ns = b # ns'"
    and b: "gdalband_of_band_id d ident = Inr (RasterBand b)"
    and rest: "map (gdalband_of_band_id d) ids = map (\<lambda>m. Inr (RasterBand m)) ns'"
    by (cases ns) auto
  define d1 where
    "d1 = WriteArray d (RasterBand b) (map (map (\<lambda>px. px ! n)) (adata a)) (ry, rx) x0 y0"
  have n: "n < nb" using Cons.prems(4) by simp
  have step: "write_bands ext r a f None (List.enumerate n (ident # ids)) d
              = write_bands ext r a f None (List.enumerate (Suc n) ids) d1"
    using write_slices_whole [OF wf(2) n pos fits, of "RasterBand b" ext d]
    by (simp add: off b d1_def)
  have f1: "file_of_raster r d1"
    using Cons.prems(1) by (simp add: file_of_raster_def d1_def WriteArray_fields)
  have "gdalband_of_band_id d1 = gdalband_of_band_id d"
    by (rule ext, rule gdalband_of_band_id_cong) (simp_all add: d1_def WriteArray_fields)
  then have r1: "map (gdalband_of_band_id d1) ids = map (\<lambda>m. Inr (RasterBand m)) ns'"
    using rest by simp
  have dist: "distinct ns'" "b \<notin> set ns'" using Cons.prems(3) ns by simp_all
  have len: "Suc n + length ids \<le> nb" using Cons.prems(4) by simp
  from Cons.IH [OF f1 r1 dist(1) len]
  obtain d' where d': "write_bands ext r a f None (List.enumerate (Suc n) ids) d1 = Inr d'"
    and fields: "RasterCount d' = RasterCount d1" "RasterXSize d' = RasterXSize d1"
      "RasterYSize d' = RasterYSize d1" "mask_flags d' = mask_flags d1"
    and written: "\<And>j row col. j < length ids \<Longrightarrow> band_data d' (ns' ! j) row col
                = (if nat y0 \<le> row \<and> row < nat y0 + ry \<and> nat x0 \<le> col \<and> col < nat x0 + rx
                   then adata a ! (row - nat y0) ! (col - nat x0) ! (Suc n + j)
                   else band_data d1 (ns' ! j) row col)"
    and others: "\<And>m. m \<notin> set ns' \<Longrightarrow> band_data d' m = band_data d1 m"
    by blast
  have inb: "x0 + int rx \<le> int (RasterXSize d)" "y0 + int ry \<le> int (RasterYSize d)"
    using fits Cons.prems(1) by (simp_all add: file_of_raster_def)
  have first: "band_data d' b row col
                = (if nat y0 \<le> row \<and> row < nat y0 + ry \<and> nat x0 \<le> col \<and> col < nat x0 + rx
                   then adata a ! (row - nat y0) ! (col - nat x0) ! n
                   else band_data d b row col)" for row col
  proof -
    have "band_data d' b row col = band_data d1 b row col"
      using others [OF dist(2)] by simp
    also have "\<dots> = (if nat y0 \<le> row \<and> row < nat y0 + ry \<and> nat x0 \<le> col \<and> col < nat x0 + rx
                   then map (map (\<lambda>px. px ! n)) (adata a) ! (row - nat y0) ! (col - nat x0)
                   else band_data d b row col)"
      unfolding d1_def by (rule WriteArray_band [OF pos inb])
    also have "\<dots> = (if nat y0 \<le> row \<and> row < nat y0 + ry \<and> nat x0 \<le> col \<and> col < nat x0 + rx
                   then adata a ! (row - nat y0) ! (col - nat x0) ! n
                   else band_data d b row col)"
    proof (cases "nat y0 \<le> row \<and> row < nat y0 + ry \<and> nat x0 \<le> col \<and> col < nat x0 + rx")
      case True
      then have "row - nat y0 < ry" "col - nat x0 < rx" by auto
      from plane_nth [OF wf this] show ?thesis by (simp only: if_P [OF True])
    next
      case False
      show ?thesis by (simp only: if_not_P [OF False])
    qed
    finally show ?thesis .
  qed
  have later: "band_data d' (ns' ! j) row col
                = (if nat y0 \<le> row \<and> row < nat y0 + ry \<and> nat x0 \<le> col \<and> col < nat x0 + rx
                   then adata a ! (row - nat y0) ! (col - nat x0) ! (Suc n + j)
                   else band_data d (ns' ! j) row col)" if j: "j < length ids" for j row col
  proof -
    have "length ns' = length ids" using rest by (metis length_map)
    then have "ns' ! j \<in> set ns'" using j by simp
    then have "ns' ! j \<noteq> b" using dist(2) by auto
    then have "band_data d1 (ns' ! j) = band_data d (ns' ! j)"
      unfolding d1_def by (rule WriteArray_other_band)
    then show ?thesis using written [OF j] by simp
  qed
  have all: "band_data d' ((b # ns') ! j) row col
                = (if nat y0 \<le> row \<and> row < nat y0 + ry \<and> nat x0 \<le> col \<and> col < nat x0 + rx
                   then adata a ! (row - nat y0) ! (col - nat x0) ! (n + j)
                   else band_data d ((b # ns') ! j) row col)"
    if "j < length (ident # ids)" for j row col
  proof (cases j)
    case 0
    then show ?thesis using first by simp
  next
    case (Suc j')
    then show ?thesis using later [of j'] that by simp
  qed
  have out: "band_data d' m = band_data d m" if "m \<notin> set (b # ns')" for m
  proof -
    have "band_data d' m = band_data d1 m" using others that by simp
    also have "\<dots> = band_data d m"
      unfolding d1_def using that by (intro WriteArray_other_band) simp
    finally show ?thesis .
  qed
  show ?case
    unfolding step ns
    using d' fields all out by (simp add: d1_def WriteArray_fields)
qed


lemma read_bands_window:
  assumes "0 \<le> x0" "0 \<le> y0"
    and "x0 + int rx \<le> int (RasterXSize d)" "y0 + int ry \<le> int (RasterYSize d)"
  shows "map (gdalband_of_band_id d) ids = map Inr bs
     \<Longrightarrow> read_bands d x0 y0 rx ry ids
         = Inr (map (\<lambda>b. map (\<lambda>y. map (\<lambda>x. band_value d b (nat y0 + y) (nat x0 + x))
                  [0..<rx]) [0..<ry]) bs)"
proof (induction ids arbitrary: bs)
  case Nil
  then show ?case by simp
next
  case (Cons ident ids)
  from Cons.prems obtain b bs' where bs: "bs = b # bs'"
    and b: "gdalband_of_band_id d ident = Inr b"
    and rest: "map (gdalband_of_band_id d) ids = map Inr bs'"
    by (cases bs) auto
  show ?case
    using assms by (simp add: bs b Cons.IH [OF rest] ReadAsArray_def)
qed

text \<open>What is read from the window that was just written is the array.\<close>

lemma dstarray_of_written:
  assumes wf: "wf_array a" "ashape a = (ry, rx, length bs)" "adtype a = dt"
    and written: "\<And>j y x. j < length bs \<Longrightarrow> y < ry \<Longrightarrow> x < rx
                   \<Longrightarrow> band_value d (bs ! j) (nat y0 + y) (nat x0 + x) = adata a ! y ! x ! j"
  shows "dstarray_of (ry, rx) dt
           (map (\<lambda>b. map (\<lambda>y. map (\<lambda>x. band_value d b (nat y0 + y) (nat x0 + x))
                  [0..<rx]) [0..<ry]) bs) = a"
proof -
  let ?planes = "map (\<lambda>b. map (\<lambda>y. map (\<lambda>x. band_value d b (nat y0 + y) (nat x0 + x))
                  [0..<rx]) [0..<ry]) bs"
  have px: "map (\<lambda>plane. plane ! y ! x) ?planes = adata a ! y ! x"
    if yx: "y < ry" "x < rx" for y x
  proof (rule nth_equalityI)
    show "length (map (\<lambda>plane. plane ! y ! x) ?planes) = length (adata a ! y ! x)"
      using wf_arrayD(3) [OF wf(1,2) yx] by simp
  next
    fix j assume "j < length (map (\<lambda>plane. plane ! y ! x) ?planes)"
    then have j: "j < length bs" by simp
    then show "map (\<lambda>plane. plane ! y ! x) ?planes ! j = adata a ! y ! x ! j"
      using yx written [OF j yx] by simp
  qed
  have row: "map (\<lambda>x. map (\<lambda>plane. plane ! y ! x) ?planes) [0..<rx] = adata a ! y"
    if y: "y < ry" for y
  proof (rule map_upt_nth)
    show "length (adata a ! y) = rx"
      by (rule wf_arrayD(2) [OF wf(1,2) y])
  next
    fix x assume "x < rx"
    then show "map (\<lambda>plane. plane ! y ! x) ?planes = adata a ! y ! x"
      by (rule px [OF y])
  qed
  have data: "map (\<lambda>y. map (\<lambda>x. map (\<lambda>plane. plane ! y ! x) ?planes) [0..<rx]) [0..<ry]
              = adata a"
  proof (rule map_upt_nth)
    show "length (adata a) = ry"
      by (rule wf_arrayD(1) [OF wf(1,2)])
  next
    fix y assume "y < ry"
    then show "map (\<lambda>x. map (\<lambda>plane. plane ! y ! x) ?planes) [0..<rx] = adata a ! y"
      by (rule row)
  qed
  have "dstarray_of (ry, rx) dt ?planes
        = \<lparr>adtype = adtype a, ashape = ashape a, adata = adata a\<rparr>"
    unfolding dstarray_of_def fst_conv snd_conv data by (simp add: wf(2,3))
  then show ?thesis by simp
qed

text \<open>Integers that name bands of the file, each at most once, name raster bands that differ.\<close>

lemma int_band_ids:
  assumes "\<forall>k\<in>set ks. 1 \<le> k \<and> k \<le> int (RasterCount d)" "distinct ks"
  shows "map (gdalband_of_band_id d) (map IntId ks) = map (\<lambda>m. Inr (RasterBand m)) (map nat ks)"
    and "distinct (map nat ks)"
proof -
  show "map (gdalband_of_band_id d) (map IntId ks)
        = map (\<lambda>m. Inr (RasterBand m)) (map nat ks)"
    using assms(1) by (simp add: gdalband_of_band_id_def GetRasterBand_def)
  have "inj_on nat (set ks)"
  proof (rule inj_onI)
    fix x y assume "x \<in> set ks" "y \<in> set ks" "nat x = nat y"
    then show "x = y" using assms(1) by (metis eq_nat_nat_iff le_numeral_extra(3) order_trans zero_le_one)
  qed
  then show "distinct (map nat ks)"
    using assms(2) by (simp add: distinct_map)
qed


text \<open>
  C1, as the code has it. Let \<open>f\<close> be a footprint on the grid of the raster and fully
  contained in its footprint, \<open>a\<close> an array of the dtype of the raster with the shape
  \<open>(f.ry, f.rx, len(band_ids))\<close>, and let \<open>band_ids\<close> be integers that name bands of the
  file, none of them twice. Then \<open>set_data\<close> without a mask succeeds, the \<open>get_data\<close>
  that follows on the same footprint and bands succeeds, and the array it returns is
  \<open>a\<close>.
\<close>

theorem set_then_get_returns_array:
  assumes f: "contained_in f (r_fp r)" "valid_footprint f"
    and a: "wf_array a" "ashape a = (rsizey f, rsizex f, length band_ids)" "adtype a = r_dtype r"
    and fl: "file_of_raster r (rs_file st)"
    and ids: "band_ids = map IntId ks" "distinct ks"
      "\<forall>k\<in>set ks. 1 \<le> k \<and> k \<le> int (RasterCount (rs_file st))"
  shows "set_then_get ext r a f band_ids interp dst_nodata st = Inr a"
proof -
  define x0 where "x0 = tlx f - tlx (r_fp r)"
  define y0 where "y0 = tly f - tly (r_fp r)"
  define ns where "ns = map nat ks"
  define bands where "bands = map RasterBand ns"
  let ?rx = "rsizex f" and ?ry = "rsizey f"
  have bnds: "map (gdalband_of_band_id (rs_file st)) band_ids = map (\<lambda>m. Inr (RasterBand m)) ns"
    "distinct ns"
    using int_band_ids [OF ids(3) ids(2)] by (simp_all add: ids(1) ns_def)
  have len: "length ns = length band_ids" "length bands = length band_ids"
    by (simp_all add: ns_def bands_def ids(1))
  have a': "ashape a = (?ry, ?rx, length bands)" using a(2) len by simp
  have off: "spatial_to_raster (r_fp r) (tl_point f) = (x0, y0)"
    by (simp add: spatial_to_raster_def tl_point_def x0_def y0_def)
  have pos: "0 \<le> x0" "0 \<le> y0"
    using f(1) by (simp_all add: contained_in_def x0_def y0_def)
  have fits: "x0 + int ?rx \<le> int (rsizex (r_fp r))" "y0 + int ?ry \<le> int (rsizey (r_fp r))"
    using f(1) by (simp_all add: contained_in_def x0_def y0_def)
  have lt: "x0 < int (rsizex (r_fp r))" "y0 < int (rsizey (r_fp r))"
    using fits f(2) by (simp_all add: valid_footprint_def)
  have sg: "same_grid f (r_fp r)" using f(1) by (simp add: contained_in_def)
  \<comment> \<open>the call of \<open>set_data\<close>\<close>
  define b1 where "b1 = acquire_driver_object (r_uid r) (rs_back st)"
  from write_bands_whole [OF a(1) a' pos fits off fl bnds, of 0 ext]
  obtain d' where w: "write_bands ext r a f None (List.enumerate 0 band_ids) (rs_file st) = Inr d'"
    and fields: "RasterCount d' = RasterCount (rs_file st)" "RasterXSize d' = RasterXSize (rs_file st)"
      "RasterYSize d' = RasterYSize (rs_file st)" "mask_flags d' = mask_flags (rs_file st)"
    and written: "\<And>j row col. j < length band_ids \<Longrightarrow> band_data d' (ns ! j) row col
          = (if nat y0 \<le> row \<and> row < nat y0 + ?ry \<and> nat x0 \<le> col \<and> col < nat x0 + ?rx
             then adata a ! (row - nat y0) ! (col - nat x0) ! (0 + j)
             else band_data (rs_file st) (ns ! j) row col)"
    using len by auto
  define st1 where "st1 = \<lparr>rs_back = b1, rs_file = d'\<rparr>"
  have setd: "set_data ext r a f band_ids interp None st = Inr st1"
    using contained_share_area(1) [OF f, of ext] sg
    by (simp add: set_data_def contained_intersection(1) [OF f]
        remap_same_footprint [OF a(1) a(2)] astype_same [OF a(3)] w st1_def b1_def Let_def)
  \<comment> \<open>the call of \<open>get_data\<close>\<close>
  have bsf: "build_sampling_footprint ext (r_fp r) f interp = Some f"
    using contained_share_area(1) [OF f, of ext] sg
    by (simp add: build_sampling_footprint_def contained_intersection(2) [OF f])
  have "gdalband_of_band_id d' = gdalband_of_band_id (rs_file st)"
    by (rule ext, rule gdalband_of_band_id_cong) (simp_all add: fields)
  then have bands': "map (gdalband_of_band_id d') band_ids = map Inr bands"
    using bnds(1) by (simp add: bands_def)
  have inb: "x0 + int ?rx \<le> int (RasterXSize d')" "y0 + int ?ry \<le> int (RasterYSize d')"
    using fits fl by (simp_all add: fields file_of_raster_def)
  have rd: "read_bands d' x0 y0 ?rx ?ry band_ids
        = Inr (map (\<lambda>b. map (\<lambda>y. map (\<lambda>x. band_value d' b (nat y0 + y) (nat x0 + x))
                 [0..<?rx]) [0..<?ry]) bands)"
    by (rule read_bands_window [OF pos inb bands'])
  have rb: "band_value d' (bands ! j) (nat y0 + y) (nat x0 + x) = adata a ! y ! x ! j"
    if "j < length bands" "y < ?ry" "x < ?rx" for j y x
    using written [of j "nat y0 + y" "nat x0 + x"] that len
    by (simp add: bands_def band_value_def)
  have arr: "dstarray_of (?ry, ?rx) (r_dtype r)
           (map (\<lambda>b. map (\<lambda>y. map (\<lambda>x. band_value d' b (nat y0 + y) (nat x0 + x))
                  [0..<?rx]) [0..<?ry]) bands) = a"
    by (rule dstarray_of_written [OF a(1) a' a(3) rb])
  have drv: "get_data_driver r f band_ids d' = Inr a"
    using pos lt by (simp add: get_data_driver_def off rd shape_def arr)
  define st2 where "st2 = st1\<lparr>rs_back := acquire_driver_object (r_uid r) (rs_back st1)\<rparr>"
  have smp: "sample r f band_ids st1 = Inr (a, st2)"
    using sg drv by (simp add: sample_def Let_def st2_def st1_def)
  have getd: "get_data ext r f band_ids dst_nodata interp st1 = Inr (a, st2)"
    by (simp add: get_data_def bsf smp remap_same_footprint [OF a(1) a(2)] astype_same [OF a(3)])
  show ?thesis
    by (simp add: set_then_get_def setd getd)
qed


theorem set_then_get_returns_array_witness:
  "contained_in example_window (r_fp example_raster)
   \<and> valid_footprint example_window
   \<and> wf_array example_array
   \<and> ashape example_array
        = (rsizey example_window, rsizex example_window, length [IntId 2, IntId 1])
   \<and> adtype example_array = r_dtype example_raster
   \<and> file_of_raster example_raster (rs_file example_state)
   \<and> [IntId 2, IntId 1] = map IntId [2, 1]
   \<and> distinct [2, 1 :: int]
   \<and> list_all (\<lambda>k. 1 \<le> k \<and> k \<le> int (RasterCount (rs_file example_state))) [2, 1]
   \<and> set_then_get example_ext example_raster example_array example_window
        [IntId 2, IntId 1] Nearest 0 example_state = Inr example_array"
proof -
  have h: "contained_in example_window (r_fp example_raster)"
    "valid_footprint example_window"
    "wf_array example_array"
    "ashape example_array
        = (rsizey example_window, rsizex example_window, length [IntId 2, IntId 1])"
    "adtype example_array = r_dtype example_raster"
    "file_of_raster example_raster (rs_file example_state)"
    "[IntId 2, IntId 1] = map IntId [2, 1]"
    "distinct [2, 1 :: int]"
    by code_simp+
  have k: "list_all (\<lambda>k. 1 \<le> k \<and> k \<le> int (RasterCount (rs_file example_state))) [2, 1]"
    by code_simp
  then have k': "\<forall>k\<in>set [2, 1]. 1 \<le> k \<and> k \<le> int (RasterCount (rs_file example_state))"
    by (simp only: list_all_iff)
  from set_then_get_returns_array [OF h k', of example_ext Nearest 0] h k
  show ?thesis by blast
qed

text \<open>
  C1 as stated holds for every band selection. With the first band selected twice,
  on the window of 2 by 2 pixels inside the raster and an array of the raster's dtype,
  \<open>set_data\<close> writes both planes of the array to that band, one after the other, and
  \<open>get_data\<close> returns the second plane twice.
\<close>

theorem set_then_get_counterexample:
  "contained_in example_window (r_fp example_raster)
   \<and> valid_footprint example_window
   \<and> wf_array example_array
   \<and> ashape example_array
        = (rsizey example_window, rsizex example_window, length [IntId 1, IntId 1])
   \<and> adtype example_array = r_dtype example_raster
   \<and> file_of_raster example_raster (rs_file example_state)
   \<and> set_then_get example_ext example_raster example_array example_window
        [IntId 1, IntId 1] Nearest 0 example_state
       = Inr (example_array\<lparr>adata := [[[2, 2], [4, 4]], [[6, 6], [8, 8]]]\<rparr>)
   \<and> set_then_get example_ext example_raster example_array example_window
        [IntId 1, IntId 1] Nearest 0 example_state \<noteq> Inr example_array"
  by code_simp

text \<open>
  The identifier of a mask band, on a file that stores no mask: \<open>set_data\<close> changes
  nothing, and \<open>get_data\<close> reads 255 in every pixel, whatever was written.
\<close>

lemma set_then_get_mask_band_id:
  "set_then_get example_ext example_raster (np_full (2, 2, 1) 7 UInt8) example_window
     [ComplexId 1] Nearest 0 example_state = Inr (np_full (2, 2, 1) 255 UInt8)"
  by code_simp

subsection \<open>The tiling with the boundary effect shrink\<close>

lemma tile_count_bound:
  assumes "0 < ts"
  shows "i < tile_count rs ts \<longleftrightarrow> i * ts < rs"
proof -
  have "i < tile_count rs ts \<longleftrightarrow> Suc i \<le> (rs + ts - 1) div ts"
    by (simp add: tile_count_def Suc_le_eq)
  also have "\<dots> \<longleftrightarrow> Suc i * ts \<le> rs + ts - 1"
    using assms by (simp add: less_eq_div_iff_mult_less_eq)
  also have "\<dots> \<longleftrightarrow> i * ts < rs"
    using assms by (cases rs) auto
  finally show ?thesis .
qed

lemma pairwise_disjoint_append:
  "pairwise_disjoint (xs @ ys) \<longleftrightarrow>
     pairwise_disjoint xs \<and> pairwise_disjoint ys \<and> (\<forall>x \<in> set xs. \<forall>y \<in> set ys. disjoint_fp x y)"
  by (induction xs) (auto simp: list_all_iff)

lemma pairwise_disjoint_map:
  assumes "distinct is"
    and "\<And>i i'. i \<in> set is \<Longrightarrow> i' \<in> set is \<Longrightarrow> i \<noteq> i' \<Longrightarrow> disjoint_fp (g i) (g i')"
  shows "pairwise_disjoint (map g is)"
  using assms by (induction "is") (auto simp: list_all_iff)

lemma pairwise_disjoint_concat:
  assumes "distinct js"
    and "\<And>j. j \<in> set js \<Longrightarrow> pairwise_disjoint (row j)"
    and "\<And>j j' a b. j \<in> set js \<Longrightarrow> j' \<in> set js \<Longrightarrow> j \<noteq> j' \<Longrightarrow> a \<in> set (row j)
           \<Longrightarrow> b \<in> set (row j') \<Longrightarrow> disjoint_fp a b"
  shows "pairwise_disjoint (concat (map row js))"
  using assms
proof (induction js)
  case Nil
  then show ?case by simp
next
  case (Cons j js)
  have "pairwise_disjoint (concat (map row js))"
  proof (rule Cons.IH)
    show "distinct js" using Cons.prems(1) by simp
    show "pairwise_disjoint (row j')" if "j' \<in> set js" for j'
      using Cons.prems(2) that by simp
    show "disjoint_fp a b"
      if "j1 \<in> set js" "j2 \<in> set js" "j1 \<noteq> j2" "a \<in> set (row j1)" "b \<in> set (row j2)"
      for j1 j2 a b
      using Cons.prems(3) [of j1 j2 a b] that by simp
  qed
  moreover have "disjoint_fp a b"
    if ab: "a \<in> set (row j)" "b \<in> set (concat (map row js))" for a b
  proof -
    obtain j' where j': "j' \<in> set js" "b \<in> set (row j')" using ab(2) by auto
    have "j \<noteq> j'" using Cons.prems(1) j'(1) by auto
    then show ?thesis using Cons.prems(3) [of j j' a b] ab(1) j' by simp
  qed
  ultimately show ?case
    using Cons.prems(2) by (simp add: pairwise_disjoint_append)
qed


lemma strips_disjoint:
  assumes "i \<noteq> i'"
  shows "min (orig + int (i * t) + int (min t (r - i * t)))
             (orig + int (i' * t) + int (min t (r - i' * t)))
         - max (orig + int (i * t)) (orig + int (i' * t)) \<le> 0"
proof -
  have step: "int (a * t) + int (min t (r - a * t)) \<le> int (b * t)" if "a < b" for a b :: nat
  proof -
    have "Suc a * t \<le> b * t" using that by (intro mult_le_mono1) simp
    then have "a * t + t \<le> b * t" by simp
    moreover have "min t (r - a * t) \<le> t" by simp
    ultimately have "a * t + min t (r - a * t) \<le> b * t" by linarith
    then show ?thesis by (metis of_nat_add of_nat_le_iff)
  qed
  consider "i < i'" | "i' < i" using assms by linarith
  then show ?thesis
  proof cases
    case 1
    from step [OF 1] show ?thesis by simp
  next
    case 2
    from step [OF 2] show ?thesis by simp
  qed
qed

lemma in_grid_of_lists:
  "t \<in> set (concat (map (\<lambda>j. map (\<lambda>i. h i j) [0..<n]) [0..<m]))
     \<longleftrightarrow> (\<exists>i j. i < n \<and> j < m \<and> t = h i j)"
proof -
  have "t \<in> set (concat (map (\<lambda>j. map (\<lambda>i. h i j) [0..<n]) [0..<m]))
     \<longleftrightarrow> (\<exists>j \<in> {0..<m}. t \<in> (\<lambda>i. h i j) ` {0..<n})"
    by simp
  also have "\<dots> \<longleftrightarrow> (\<exists>j. j < m \<and> (\<exists>i. i < n \<and> t = h i j))"
    by (simp add: Bex_def image_iff conj_commute)
  also have "\<dots> \<longleftrightarrow> (\<exists>i j. i < n \<and> j < m \<and> t = h i j)"
    by blast
  finally show ?thesis .
qed

lemma pixels_of_iff:
  "p \<in> set (pixels_of f) \<longleftrightarrow> (\<exists>x y. x < rsizex f \<and> y < rsizey f \<and> p = (tlx f + int x, tly f + int y))"
  unfolding pixels_of_def by (rule in_grid_of_lists)

text \<open>
  The tiling with the boundary effect shrink covers the footprint exactly: its tiles
  lie on the grid of the footprint and are not empty, every pixel of the footprint lies
  in a tile, no tile leaves the footprint and no two tiles overlap.
\<close>

lemma tile_shrink_exact_cover:
  assumes "tile_shrink f tsize = Inr tiling"
  shows "is_tiling_covering_fp tiling f False False"
proof -
  define tw where "tw = nat (fst tsize)"
  define th where "th = nat (snd tsize)"
  define nx where "nx = tile_count (rsizex f) tw"
  define ny where "ny = tile_count (rsizey f) th"
  define g where "g = (\<lambda>i j. \<lparr>grid = grid f,
      tlx = tlx f + int (i * tw), tly = tly f + int (j * th),
      rsizex = min tw (rsizex f - i * tw), rsizey = min th (rsizey f - j * th)\<rparr>)"
  have tpos: "0 < tw" "0 < th"
    using assms by (auto simp: tile_shrink_def tw_def th_def split: if_splits)
  have tiling: "tiling = map (\<lambda>j. map (\<lambda>i. g i j) [0..<nx]) [0..<ny]"
    using assms
    by (auto simp: tile_shrink_def tw_def th_def nx_def ny_def g_def Let_def split: if_splits)
  have ix: "i < nx \<longleftrightarrow> i * tw < rsizex f" for i
    unfolding nx_def by (rule tile_count_bound [OF tpos(1)])
  have jy: "j < ny \<longleftrightarrow> j * th < rsizey f" for j
    unfolding ny_def by (rule tile_count_bound [OF tpos(2)])
  have mem: "t \<in> set (concat tiling) \<longleftrightarrow> (\<exists>i j. i < nx \<and> j < ny \<and> t = g i j)" for t
    unfolding tiling by (rule in_grid_of_lists)
  have gf: "grid (g i j) = grid f" "tlx (g i j) = tlx f + int (i * tw)"
    "tly (g i j) = tly f + int (j * th)" "rsizex (g i j) = min tw (rsizex f - i * tw)"
    "rsizey (g i j) = min th (rsizey f - j * th)" for i j
    by (simp_all add: g_def)
  \<comment> \<open>the tiles are footprints of the grid\<close>
  have valid: "same_grid t f \<and> 0 < rsizex t \<and> 0 < rsizey t"
    if tin: "t \<in> set (concat tiling)" for t
  proof -
    obtain i j where ij: "i < nx" "j < ny" "t = g i j" using tin mem by blast
    then show ?thesis using ix jy tpos by (simp add: gf same_grid_def)
  qed
  \<comment> \<open>every pixel lies in a tile\<close>
  have covered: "\<exists>t \<in> set (concat tiling). covers t p" if p: "p \<in> set (pixels_of f)" for p
  proof -
    obtain x y where xy: "x < rsizex f" "y < rsizey f" "p = (tlx f + int x, tly f + int y)"
      using p pixels_of_iff by blast
    let ?i = "x div tw" and ?j = "y div th"
    have lo: "?i * tw \<le> x" "?j * th \<le> y" by simp_all
    have hi: "x < ?i * tw + tw" "y < ?j * th + th"
    proof -
      show "x < ?i * tw + tw"
        using tpos(1) mod_less_divisor [of tw x] div_mult_mod_eq [of x tw] by linarith
      show "y < ?j * th + th"
        using tpos(2) mod_less_divisor [of th y] div_mult_mod_eq [of y th] by linarith
    qed
    have inx: "?i < nx" "?j < ny"
    proof -
      have "?i * tw < rsizex f" by (rule le_less_trans [OF lo(1) xy(1)])
      then show "?i < nx" by (simp only: ix)
      have "?j * th < rsizey f" by (rule le_less_trans [OF lo(2) xy(2)])
      then show "?j < ny" by (simp only: jy)
    qed
    have wx: "x < ?i * tw + min tw (rsizex f - ?i * tw)"
    proof (cases "tw \<le> rsizex f - ?i * tw")
      case True
      then show ?thesis using hi(1) by (simp only: min_absorb1)
    next
      case False
      then have "min tw (rsizex f - ?i * tw) = rsizex f - ?i * tw"
        by (simp only: min_def if_False)
      moreover have "?i * tw + (rsizex f - ?i * tw) = rsizex f"
        using lo(1) xy(1) by (intro le_add_diff_inverse) linarith
      ultimately show ?thesis using xy(1) by (simp only:)
    qed
    have wy: "y < ?j * th + min th (rsizey f - ?j * th)"
    proof (cases "th \<le> rsizey f - ?j * th")
      case True
      then show ?thesis using hi(2) by (simp only: min_absorb1)
    next
      case False
      then have "min th (rsizey f - ?j * th) = rsizey f - ?j * th"
        by (simp only: min_def if_False)
      moreover have "?j * th + (rsizey f - ?j * th) = rsizey f"
        using lo(2) xy(2) by (intro le_add_diff_inverse) linarith
      ultimately show ?thesis using xy(2) by (simp only:)
    qed
    have ix': "int (?i * tw) \<le> int x"
      "int x < int (?i * tw) + int (min tw (rsizex f - ?i * tw))"
      using lo(1) wx by (simp_all only: of_nat_le_iff of_nat_less_iff flip: of_nat_add)
    have iy': "int (?j * th) \<le> int y"
      "int y < int (?j * th) + int (min th (rsizey f - ?j * th))"
      using lo(2) wy by (simp_all only: of_nat_le_iff of_nat_less_iff flip: of_nat_add)
    have "covers (g ?i ?j) p"
      unfolding covers_def gf xy(3) fst_conv snd_conv
      using ix' iy' by (intro conjI) linarith+
    then show ?thesis using inx mem by blast
  qed
  \<comment> \<open>no tile leaves the footprint\<close>
  have inner: "covers f p" if t: "t \<in> set (concat tiling)" and p: "p \<in> set (pixels_of t)" for t p
  proof -
    obtain i j where ij: "i < nx" "j < ny" "t = g i j" using t mem by blast
    obtain x y where xy: "x < rsizex t" "y < rsizey t" "p = (tlx t + int x, tly t + int y)"
      using p pixels_of_iff by blast
    have nx': "i * tw + x < rsizex f"
      using xy(1) ij(1,3) ix [of i] by (simp add: gf less_diff_conv add.commute)
    have ny': "j * th + y < rsizey f"
      using xy(2) ij(2,3) jy [of j] by (simp add: gf less_diff_conv add.commute)
    have ix': "int (i * tw) + int x < int (rsizex f)"
      using nx' by (simp only: of_nat_less_iff flip: of_nat_add)
    have iy': "int (j * th) + int y < int (rsizey f)"
      using ny' by (simp only: of_nat_less_iff flip: of_nat_add)
    show ?thesis
      unfolding covers_def xy(3) ij(3) gf fst_conv snd_conv
      using ix' iy' by (intro conjI) linarith+
  qed
  \<comment> \<open>no two tiles overlap\<close>
  have disj: "pairwise_disjoint (concat tiling)"
    unfolding tiling
  proof (rule pairwise_disjoint_concat)
    show "distinct [0..<ny]" by simp
  next
    fix j
    show "pairwise_disjoint (map (\<lambda>i. g i j) [0..<nx])"
    proof (rule pairwise_disjoint_map)
      show "distinct [0..<nx]" by simp
    next
      fix i i' :: nat
      assume ne: "i \<noteq> i'"
      show "disjoint_fp (g i j) (g i' j)"
        unfolding disjoint_fp_def overlap_x_def gf
        by (rule disjI1) (rule strips_disjoint [OF ne])
    qed
  next
    fix j j' :: nat and a b
    assume ne: "j \<noteq> j'" and a: "a \<in> set (map (\<lambda>i. g i j) [0..<nx])"
      and b: "b \<in> set (map (\<lambda>i. g i j') [0..<nx])"
    from a b obtain i i' where ab: "a = g i j" "b = g i' j'" by auto
    show "disjoint_fp a b"
      unfolding disjoint_fp_def overlap_y_def ab gf
      by (rule disjI2) (rule strips_disjoint [OF ne])
  qed
  show ?thesis
    using valid covered inner disj
    by (simp add: is_tiling_covering_fp_def Let_def list_all_iff list_ex_iff)
qed

end
